theory Spec2Isabelle
  imports Main "HOL-Library.AList" "HOL-Library.Multiset"
    "HOL-Library.Char_ord" "HOL-Library.List_Lexorder"
begin

section \<open>The document and call endpoints of \<open>minimal_app.py\<close>\<close>

text \<open>
  The endpoints of \<open>src/minimal_app.py\<close> are embedded as functions over an explicit
  application state. Strings are \<open>char list\<close>s; the clock reading
  \<open>int(time.time())\<close> is an argument of the operation that takes it; every
  \<open>raise\<close> of the source is an \<open>Inl\<close> result.
\<close>

subsection \<open>Python string and path primitives\<close>

text \<open>\<open>str.lower()\<close> on the ASCII letters; other characters are left as they are.\<close>

definition lower_char :: "char \<Rightarrow> char" where
  "lower_char c =
     (let n = (of_char c :: nat) in if 65 \<le> n \<and> n \<le> 90 then char_of (n + 32) else c)"

definition lower :: "string \<Rightarrow> string" where
  "lower s = map lower_char s"

text \<open>\<open>str.replace(old, new)\<close> for single characters.\<close>

definition replace :: "char \<Rightarrow> char \<Rightarrow> string \<Rightarrow> string" where
  "replace old new s = map (\<lambda>c. if c = old then new else c) s"

text \<open>\<open>sep.join(xs)\<close>.\<close>

fun join :: "string \<Rightarrow> string list \<Rightarrow> string" where
  "join sep [] = []"
| "join sep [x] = x"
| "join sep (x # y # ys) = x @ sep @ join sep (y # ys)"

text \<open>\<open>str.endswith\<close> and \<open>str.startswith\<close>.\<close>

definition endswith :: "string \<Rightarrow> string \<Rightarrow> bool" where
  "endswith s suf = (length suf \<le> length s \<and> drop (length s - length suf) s = suf)"

definition startswith :: "string \<Rightarrow> string \<Rightarrow> bool" where
  "startswith s pre = (take (length pre) s = pre)"

text \<open>\<open>str(n)\<close> for an integer: decimal digits, with a leading minus sign.\<close>

definition digit_char :: "nat \<Rightarrow> char" where
  "digit_char d = ''0123456789'' ! d"

fun str_nat :: "nat \<Rightarrow> string" where
  "str_nat n = (if n < 10 then [digit_char n] else str_nat (n div 10) @ [digit_char (n mod 10)])"

declare str_nat.simps [simp del]

definition str_int :: "int \<Rightarrow> string" where
  "str_int i = (if i < 0 then CHR ''-'' # str_nat (nat (- i)) else str_nat (nat i))"

text \<open>
  \<open>s.rfind(c)\<close>: the index of the last occurrence of \<open>c\<close>, or \<open>-1\<close>. The scan
  keeps the last index seen.
\<close>

fun rfind_from :: "char \<Rightarrow> string \<Rightarrow> nat \<Rightarrow> int \<Rightarrow> int" where
  "rfind_from c [] i last_seen = last_seen"
| "rfind_from c (x # xs) i last_seen =
     rfind_from c xs (Suc i) (if x = c then int i else last_seen)"

definition rfind :: "string \<Rightarrow> char \<Rightarrow> int" where
  "rfind s c = rfind_from c s 0 (- 1)"

text \<open>
  \<open>os.path.splitext\<close> (POSIX): the extension starts at the last dot, provided that dot
  comes after the last slash and some character between that slash and the dot is not
  a dot. The loop of the library function looks for that character; \<open>take 1 (drop i p)\<close>
  is the slice \<open>p[i:i+1]\<close>.
\<close>

function splitext_loop :: "string \<Rightarrow> nat \<Rightarrow> nat \<Rightarrow> bool" where
  "splitext_loop p filenameIndex dotIndex =
     (if filenameIndex < dotIndex
      then (if take 1 (drop filenameIndex p) \<noteq> ''.'' then True
            else splitext_loop p (Suc filenameIndex) dotIndex)
      else False)"
  by pat_completeness auto
termination
  by (relation "measure (\<lambda>(p, i, d). d - i)") auto

declare splitext_loop.simps [simp del]

definition splitext :: "string \<Rightarrow> string \<times> string" where
  "splitext p =
     (let sepIndex = rfind p (CHR ''/'');
          dotIndex = rfind p (CHR ''.'')
      in if dotIndex > sepIndex \<and> splitext_loop p (nat (sepIndex + 1)) (nat dotIndex)
         then (take (nat dotIndex) p, drop (nat dotIndex) p)
         else (p, []))"

text \<open>\<open>os.path.join\<close> of two components (POSIX).\<close>

definition os_path_join :: "string \<Rightarrow> string \<Rightarrow> string" where
  "os_path_join a b =
     (if startswith b ''/'' then b
      else if a = [] \<or> endswith a ''/'' then a @ b
      else a @ ''/'' @ b)"

subsection \<open>Errors\<close>

text \<open>
  A Python exception raised by a primitive, and what a request ends with when it does
  not return: an \<open>HTTPException\<close> with a fixed detail, an \<open>HTTPException\<close> whose detail
  is a fixed prefix followed by \<open>str(e)\<close> of a caught exception, or an exception that
  no handler of the endpoint catches.
\<close>

datatype py_exception = KeyError string | JSONDecodeError | TypeError | OSError

datatype error =
    HTTPException nat string
  | HTTPExceptionFrom nat string py_exception
  | Unhandled py_exception

subsection \<open>Files, metadata and the application state\<close>

text \<open>
  A metadata dictionary holds strings and integers under string keys, in insertion
  order. A file holds either raw bytes or the JSON text of such a dictionary
  (\<open>json.dump\<close> writes it, \<open>json.load\<close> reads it back and raises on anything else).

  A node of the file system is named by the components of its absolute, normalised
  path. The regular files are a table from nodes to contents; the order of the table
  is the order in which a directory listing enumerates it. Directories are not in the
  table: the ancestors of the working directory and the directories the application
  creates when it is imported are there, and the environment says which other nodes
  are directories. There are no symbolic links.
\<close>

datatype json = JStr string | JInt int

type_synonym metadata = "(string \<times> json) list"

datatype file_data = Bytes string | Json metadata

type_synonym node = "string list"

type_synonym files = "(node \<times> file_data) list"

text \<open>
  What the endpoints cannot decide themselves: whether the optional document processor
  was imported; the working directory; which further nodes are directories; which
  files are protected, so that the process can neither replace nor remove them; at
  which nodes a file can be created or replaced at all (space, quota, name length);
  and which file descriptors are open (\<open>os.path.exists\<close> of an integer asks that).
  Permissions do not change between requests; every regular file can be read; and a
  file that the process can write it can also remove: only protection stands in the
  way of a removal.
\<close>

record env =
  DOCUMENT_PROCESSOR_AVAILABLE :: bool
  cwd :: node
  other_dirs :: "node \<Rightarrow> bool"
  protected :: "node \<Rightarrow> bool"
  write_permitted :: "node \<Rightarrow> bool"
  fd_open :: "int \<Rightarrow> bool"

record state =
  files :: files
  background_tasks :: "string list"

text \<open>
  The directories made by the \<open>os.makedirs\<close> calls at import, relative to the working
  directory, with the \<open>app\<close> directory they imply.
\<close>

definition app_dirs :: "node list" where
  "app_dirs =
     [[''app''], [''app'', ''templates''], [''app'', ''static''],
      [''app'', ''static'', ''css''], [''app'', ''static'', ''js''],
      [''app'', ''uploads''], [''app'', ''knowledge'']]"

definition is_directory :: "env \<Rightarrow> node \<Rightarrow> bool" where
  "is_directory e c =
     (take (length c) (cwd e) = c \<or> c \<in> set (map (\<lambda>d. cwd e @ d) app_dirs) \<or> other_dirs e c)"

text \<open>\<open>p.split("/")\<close>.\<close>

fun split_path :: "string \<Rightarrow> string list" where
  "split_path [] = [[]]"
| "split_path (c # cs) =
     (if c = CHR ''/'' then [] # split_path cs
      else (case split_path cs of [] \<Rightarrow> [[c]] | x # xs \<Rightarrow> (c # x) # xs))"

text \<open>
  Path resolution as the kernel does it: every component is looked up in a directory;
  an empty component and \<open>.\<close> stay there, \<open>..\<close> goes to the parent (the root is its own
  parent), a name goes down. The empty path and a path with a NUL character name
  nothing; a path that starts with a slash is resolved from the root, any other from
  the working directory.
\<close>

fun walk :: "env \<Rightarrow> node \<Rightarrow> string list \<Rightarrow> node option" where
  "walk e cur [] = Some cur"
| "walk e cur (c # rest) =
     (if \<not> is_directory e cur then None
      else if c = [] \<or> c = ''.'' then walk e cur rest
      else if c = ''..'' then walk e (butlast cur) rest
      else walk e (cur @ [c]) rest)"

definition resolve :: "env \<Rightarrow> string \<Rightarrow> node option" where
  "resolve e p =
     (if p = [] \<or> CHR 0x00 \<in> set p then None
      else walk e (if startswith p ''/'' then [] else cwd e) (split_path p))"

definition json_load :: "file_data \<Rightarrow> py_exception + metadata" where
  "json_load d = (case d of Bytes _ \<Rightarrow> Inl JSONDecodeError | Json md \<Rightarrow> Inr md)"

text \<open>Sequencing of steps that may raise.\<close>

definition bind_exc :: "py_exception + 'a \<Rightarrow> ('a \<Rightarrow> py_exception + 'b) \<Rightarrow> py_exception + 'b" where
  "bind_exc m f = (case m of Inl e \<Rightarrow> Inl e | Inr x \<Rightarrow> f x)"

text \<open>
  \<open>open(path, "r")\<close> and reading: the path must name a regular file. Then
  \<open>with open(path, "r") as f: json.load(f)\<close>.
\<close>

definition read_file :: "env \<Rightarrow> files \<Rightarrow> string \<Rightarrow> py_exception + file_data" where
  "read_file e fs path =
     (case resolve e path of
        None \<Rightarrow> Inl OSError
      | Some c \<Rightarrow>
          if is_directory e c then Inl OSError
          else (case map_of fs c of None \<Rightarrow> Inl OSError | Some d \<Rightarrow> Inr d))"

definition read_json :: "env \<Rightarrow> files \<Rightarrow> string \<Rightarrow> py_exception + metadata" where
  "read_json e fs path = bind_exc (read_file e fs path) json_load"

text \<open>
  A path can be opened for writing when it resolves to a node that is not a directory,
  is not protected, and at which the environment lets a file be written.
  \<open>open(path, "w")\<close> followed by writing the whole content then creates or replaces the
  file at that node.
\<close>

definition writable :: "env \<Rightarrow> string \<Rightarrow> bool" where
  "writable e path =
     (case resolve e path of
        None \<Rightarrow> False
      | Some c \<Rightarrow> \<not> is_directory e c \<and> \<not> protected e c \<and> write_permitted e c)"

definition open_write :: "env \<Rightarrow> files \<Rightarrow> string \<Rightarrow> file_data \<Rightarrow> py_exception + files" where
  "open_write e fs path d =
     (case resolve e path of
        None \<Rightarrow> Inl OSError
      | Some c \<Rightarrow> if writable e path then Inr (AList.update c d fs) else Inl OSError)"

text \<open>\<open>metadata[key]\<close>.\<close>

definition getitem :: "metadata \<Rightarrow> string \<Rightarrow> py_exception + json" where
  "getitem md k = (case map_of md k of None \<Rightarrow> Inl (KeyError k) | Some v \<Rightarrow> Inr v)"

text \<open>
  \<open>os.path.exists\<close>: true for a directory and for a regular file, under every spelling
  of their path. \<open>os.remove\<close>: raises for a path that names nothing, a directory or a
  protected file, and for an integer.
\<close>

definition os_path_exists :: "env \<Rightarrow> files \<Rightarrow> json \<Rightarrow> bool" where
  "os_path_exists e fs path =
     (case path of
        JStr p \<Rightarrow>
          (case resolve e p of
             None \<Rightarrow> False
           | Some c \<Rightarrow> is_directory e c \<or> map_of fs c \<noteq> None)
      | JInt n \<Rightarrow> fd_open e n)"

definition os_remove :: "env \<Rightarrow> files \<Rightarrow> json \<Rightarrow> py_exception + files" where
  "os_remove e fs path =
     (case path of
        JStr p \<Rightarrow>
          (case resolve e p of
             None \<Rightarrow> Inl OSError
           | Some c \<Rightarrow>
               if is_directory e c then Inl OSError
               else if map_of fs c = None then Inl OSError
               else if protected e c then Inl OSError
               else Inr (AList.delete c fs))
      | JInt n \<Rightarrow> Inl TypeError)"

subsection \<open>Document upload\<close>

definition allowed_extensions :: "string list" where
  "allowed_extensions = [''.pdf'', ''.docx'', ''.xlsx'', ''.xls'', ''.csv'', ''.txt'']"

record upload_file =
  filename :: string
  file_bytes :: string

record upload_response =
  resp_status :: string
  resp_message :: string
  resp_document_id :: string
  resp_filename :: string
  resp_category :: string
  processing :: bool

text \<open>The dictionary \<open>upload_document\<close> dumps as the metadata file.\<close>

definition upload_metadata ::
  "upload_file \<Rightarrow> string \<Rightarrow> string \<Rightarrow> string option \<Rightarrow> string \<Rightarrow> int \<Rightarrow> string \<Rightarrow> metadata" where
  "upload_metadata file safe_filename file_path description category timestamp file_ext =
     [(''filename'', JStr (filename file)),
      (''stored_filename'', JStr safe_filename),
      (''path'', JStr file_path),
      (''description'', JStr (case description of None \<Rightarrow> [] | Some d \<Rightarrow> d)),
      (''category'', JStr category),
      (''upload_time'', JInt timestamp),
      (''size'', JInt (int (length (file_bytes file)))),
      (''extension'', JStr file_ext)]"

text \<open>
  \<open>upload_document\<close>; \<open>now\<close> is \<open>int(time.time())\<close>. A failed save is caught and
  becomes HTTP 500; a failed write of the metadata file is not caught, and leaves the
  content file behind. The size is that of the file just written. The background task
  is queued with the path it will process; running it belongs to the document
  processor.
\<close>

definition upload_document ::
  "env \<Rightarrow> int \<Rightarrow> upload_file \<Rightarrow> string option \<Rightarrow> string \<Rightarrow> state
     \<Rightarrow> (error + upload_response) \<times> state" where
  "upload_document e now file description category st =
     (let file_ext = lower (snd (splitext (filename file)))
      in if file_ext \<notin> set allowed_extensions
         then (Inl (HTTPException 400
                 (''Unsupported file type. Allowed types: '' @ join '', '' allowed_extensions)), st)
         else
           let timestamp = now;
               safe_filename = str_int timestamp @ ''_''
                 @ replace (CHR '' '') (CHR ''_'') (filename file);
               file_path = os_path_join ''app/uploads'' safe_filename
           in case open_write e (files st) file_path (Bytes (file_bytes file)) of
                Inl exc \<Rightarrow> (Inl (HTTPExceptionFrom 500 ''Failed to save file: '' exc), st)
              | Inr fs1 \<Rightarrow>
                  let metadata = upload_metadata file safe_filename file_path description
                                   category timestamp file_ext;
                      metadata_path = os_path_join ''app/knowledge''
                                        (str_int timestamp @ ''_metadata.json'')
                  in case open_write e fs1 metadata_path (Json metadata) of
                       Inl exc \<Rightarrow> (Inl (Unhandled exc), st\<lparr>files := fs1\<rparr>)
                     | Inr fs2 \<Rightarrow>
                         (Inr \<lparr> resp_status = ''success'',
                                resp_message = ''Document uploaded successfully'',
                                resp_document_id = str_int timestamp,
                                resp_filename = filename file,
                                resp_category = category,
                                processing = DOCUMENT_PROCESSOR_AVAILABLE e \<rparr>,
                          st\<lparr> files := fs2,
                              background_tasks :=
                                (if DOCUMENT_PROCESSOR_AVAILABLE e
                                 then background_tasks st @ [file_path]
                                 else background_tasks st) \<rparr>))"

subsection \<open>Document listing\<close>

record document =
  doc_id :: string
  doc_filename :: json
  doc_description :: json
  doc_category :: json
  doc_upload_time :: json
  doc_size :: json
  doc_extension :: json

text \<open>
  \<open>Path("app/knowledge").glob("*_metadata.json")\<close>: the entries of the directory itself
  whose name ends with the suffix, as names, in enumeration order. A directory of such
  a name would be enumerated too; opening it raises, the loop skips it, and so it is
  left out here.
\<close>

definition knowledge_dir :: "env \<Rightarrow> node" where
  "knowledge_dir e = cwd e @ [''app'', ''knowledge'']"

definition metadata_name :: "env \<Rightarrow> node \<Rightarrow> string option" where
  "metadata_name e c =
     (if c \<noteq> [] \<and> butlast c = knowledge_dir e
         \<and> CHR ''/'' \<notin> set (last c) \<and> endswith (last c) ''_metadata.json''
      then Some (last c) else None)"

definition glob_metadata :: "env \<Rightarrow> files \<Rightarrow> string list" where
  "glob_metadata e fs = List.map_filter (metadata_name e) (map fst fs)"

text \<open>\<open>Path.stem\<close> of a file name, and \<open>s.split("_")[0]\<close>.\<close>

definition stem :: "string \<Rightarrow> string" where
  "stem name =
     (let i = rfind name (CHR ''.'')
      in if 0 < i \<and> i < int (length name) - 1 then take (nat i) name else name)"

definition split_first :: "string \<Rightarrow> string" where
  "split_first s = takeWhile (\<lambda>c. c \<noteq> CHR ''_'') s"

text \<open>
  The body of the loop of \<open>get_documents\<close> for one metadata file: \<open>Inr None\<close> when the
  content file is gone, \<open>Inl\<close> for the exception that the loop catches and prints.
\<close>

definition read_document :: "env \<Rightarrow> files \<Rightarrow> string \<Rightarrow> py_exception + document option" where
  "read_document e fs name =
     bind_exc (read_json e fs (''app/knowledge/'' @ name)) (\<lambda>metadata.
     bind_exc (getitem metadata ''path'') (\<lambda>path.
       if os_path_exists e fs path
       then
         bind_exc (getitem metadata ''filename'') (\<lambda>v_filename.
         bind_exc (getitem metadata ''description'') (\<lambda>v_description.
         bind_exc (getitem metadata ''category'') (\<lambda>v_category.
         bind_exc (getitem metadata ''upload_time'') (\<lambda>v_upload_time.
         bind_exc (getitem metadata ''size'') (\<lambda>v_size.
         bind_exc (getitem metadata ''extension'') (\<lambda>v_extension.
           Inr (Some \<lparr> doc_id = split_first (stem name),
                       doc_filename = v_filename,
                       doc_description = v_description,
                       doc_category = v_category,
                       doc_upload_time = v_upload_time,
                       doc_size = v_size,
                       doc_extension = v_extension \<rparr>)))))))
       else Inr None))"

fun get_documents_loop :: "env \<Rightarrow> files \<Rightarrow> string list \<Rightarrow> document list \<Rightarrow> document list" where
  "get_documents_loop e fs [] documents = documents"
| "get_documents_loop e fs (metadata_file # rest) documents =
     get_documents_loop e fs rest
       (case read_document e fs metadata_file of
          Inr (Some d) \<Rightarrow> documents @ [d]
        | _ \<Rightarrow> documents)"

text \<open>
  \<open>documents.sort(key=lambda x: x["upload_time"], reverse=True)\<close>: a stable sort of the
  reversed list, reversed again. Integers compare with integers and strings with
  strings; a list that mixes them raises \<open>TypeError\<close>.
\<close>

definition is_JInt :: "json \<Rightarrow> bool" where
  "is_JInt v = (case v of JInt _ \<Rightarrow> True | JStr _ \<Rightarrow> False)"

definition int_of :: "json \<Rightarrow> int" where
  "int_of v = (case v of JInt n \<Rightarrow> n | JStr _ \<Rightarrow> 0)"

definition str_of :: "json \<Rightarrow> string" where
  "str_of v = (case v of JStr s \<Rightarrow> s | JInt _ \<Rightarrow> [])"

definition sort_documents :: "document list \<Rightarrow> py_exception + document list" where
  "sort_documents documents =
     (if list_all (\<lambda>d. is_JInt (doc_upload_time d)) documents
      then Inr (rev (sort_key (\<lambda>d. int_of (doc_upload_time d)) (rev documents)))
      else if list_all (\<lambda>d. \<not> is_JInt (doc_upload_time d)) documents
      then Inr (rev (sort_key (\<lambda>d. str_of (doc_upload_time d)) (rev documents)))
      else Inl TypeError)"

definition get_documents :: "env \<Rightarrow> state \<Rightarrow> error + document list" where
  "get_documents e st =
     (case sort_documents (get_documents_loop e (files st) (glob_metadata e (files st)) []) of
        Inl exc \<Rightarrow> Inl (Unhandled exc)
      | Inr documents \<Rightarrow> Inr documents)"

subsection \<open>Document deletion\<close>

record delete_response =
  del_status :: string
  del_message :: string

definition metadata_path_of :: "string \<Rightarrow> string" where
  "metadata_path_of document_id = os_path_join ''app/knowledge'' (document_id @ ''_metadata.json'')"

text \<open>
  \<open>delete_document\<close>. Every exception after the existence check is caught and becomes
  HTTP 500; what was removed before it stays removed.
\<close>

definition delete_document :: "env \<Rightarrow> string \<Rightarrow> state \<Rightarrow> (error + delete_response) \<times> state" where
  "delete_document e document_id st =
     (let metadata_path = metadata_path_of document_id;
          failed = HTTPExceptionFrom 500 ''Failed to delete document: ''
      in if \<not> os_path_exists e (files st) (JStr metadata_path)
         then (Inl (HTTPException 404 ''Document not found''), st)
         else
           case bind_exc (read_json e (files st) metadata_path) (\<lambda>metadata.
                  getitem metadata ''path'') of
             Inl exc \<Rightarrow> (Inl (failed exc), st)
           | Inr path \<Rightarrow>
               (case (if os_path_exists e (files st) path then os_remove e (files st) path
                      else Inr (files st)) of
                  Inl exc \<Rightarrow> (Inl (failed exc), st)
                | Inr fs1 \<Rightarrow>
                    (case os_remove e fs1 (JStr metadata_path) of
                       Inl exc \<Rightarrow> (Inl (failed exc), st\<lparr>files := fs1\<rparr>)
                     | Inr fs2 \<Rightarrow>
                         (Inr \<lparr> del_status = ''success'',
                                del_message = ''Document deleted successfully'' \<rparr>,
                          st\<lparr>files := fs2\<rparr>))))"

subsection \<open>Knowledge question\<close>

text \<open>
  The document processor (\<open>app.document_processor\<close>) is imported by the application and
  is taken as a parameter: its state \<open>'p\<close>, the truth value of its
  \<open>processed_knowledge\<close>, and its two operations, each of which may change its state.
  The answer is a dictionary; the endpoint stores two strings in it.
\<close>

datatype 'v pyvalue = Str string | Other 'v

record ('p, 'v) document_processor =
  processed_knowledge :: "'p \<Rightarrow> bool"
  process_all_documents :: "'p \<Rightarrow> 'p"
  get_answer_from_knowledge_base :: "'p \<Rightarrow> string \<Rightarrow> (string \<rightharpoonup> 'v pyvalue) \<times> 'p"

definition answer_question ::
  "env \<Rightarrow> ('p, 'v) document_processor \<Rightarrow> string \<Rightarrow> string \<Rightarrow> 'p
     \<Rightarrow> (error + (string \<rightharpoonup> 'v pyvalue)) \<times> 'p" where
  "answer_question e dp question language p =
     (if \<not> DOCUMENT_PROCESSOR_AVAILABLE e
      then (Inl (HTTPException 400 ''Document processor not available''), p)
      else
        let p1 = (if \<not> processed_knowledge dp p then process_all_documents dp p else p);
            (result, p2) = get_answer_from_knowledge_base dp p1 question
        in (Inr (result(''question'' \<mapsto> Str question, ''language'' \<mapsto> Str language)), p2))"

subsection \<open>Call simulation\<close>

record call_result =
  call_id :: string
  call_status :: string
  phone_number :: string
  call_language :: string
  call_engine :: string
  duration :: int
  call_message :: string

text \<open>
  \<open>simulate_call\<close>; \<open>now\<close> is \<open>int(time.time())\<close> as read after the one-second
  sleep, the only use of the clock.
\<close>

definition simulate_call :: "int \<Rightarrow> string \<Rightarrow> string \<Rightarrow> string \<Rightarrow> error + call_result" where
  "simulate_call now phone language engine =
     (if language \<notin> set [''en'', ''hi'', ''mr'', ''te'']
      then Inl (HTTPException 400 ''Unsupported language'')
      else if engine \<notin> set [''auto'', ''google'', ''indic'']
      then Inl (HTTPException 400 ''Unsupported TTS engine'')
      else Inr \<lparr> call_id = ''sim-'' @ str_int now,
                 call_status = ''completed'',
                 phone_number = phone,
                 call_language = language,
                 call_engine = engine,
                 duration = 15,
                 call_message = ''Call simulation completed successfully using '' @ engine
                   @ '' TTS engine in '' @ language @ '' language.'' \<rparr>)"

subsection \<open>Well-formed stores and the records a listing should show\<close>

text \<open>
  A metadata record as far as the listing reads it: a path, an integer upload time,
  and the five remaining fields that the listing copies.
\<close>

definition wf_metadata :: "metadata \<Rightarrow> bool" where
  "wf_metadata md =
     ((case map_of md ''upload_time'' of Some (JInt _) \<Rightarrow> True | _ \<Rightarrow> False) \<and>
      list_all (\<lambda>k. map_of md k \<noteq> None)
        [''path'', ''filename'', ''description'', ''category'', ''size'', ''extension''])"

text \<open>Every metadata file of the knowledge directory reads as such a record.\<close>

definition wf_name :: "env \<Rightarrow> files \<Rightarrow> string \<Rightarrow> bool" where
  "wf_name e fs name =
     (case read_json e fs (''app/knowledge/'' @ name) of
        Inr md \<Rightarrow> wf_metadata md
      | Inl _ \<Rightarrow> False)"

definition wf_store :: "env \<Rightarrow> files \<Rightarrow> bool" where
  "wf_store e fs = list_all (wf_name e fs) (glob_metadata e fs)"

text \<open>
  Every metadata file of the knowledge directory is named by an id without underscore
  followed by \<open>_metadata.json\<close>, the names \<open>upload_document\<close> creates.
\<close>

definition canonical_name :: "string \<Rightarrow> bool" where
  "canonical_name name = (name = split_first (stem name) @ ''_metadata.json'')"

definition canonical_names :: "env \<Rightarrow> files \<Rightarrow> bool" where
  "canonical_names e fs = list_all canonical_name (glob_metadata e fs)"

text \<open>
  A record as \<open>upload_document\<close> writes it for a plainly named file: its content path
  is \<open>app/uploads/\<close> followed by one file name, and the node of that name is neither a
  directory nor protected.
\<close>

fun strip_prefix :: "string \<Rightarrow> string \<Rightarrow> string option" where
  "strip_prefix [] s = Some s"
| "strip_prefix (c # cs) [] = None"
| "strip_prefix (c # cs) (x # xs) = (if c = x then strip_prefix cs xs else None)"

definition plain_name :: "string \<Rightarrow> bool" where
  "plain_name s =
     (s \<noteq> [] \<and> s \<noteq> ''.'' \<and> s \<noteq> ''..'' \<and> CHR ''/'' \<notin> set s \<and> CHR 0x00 \<notin> set s)"

definition uploads_dir :: "env \<Rightarrow> node" where
  "uploads_dir e = cwd e @ [''app'', ''uploads'']"

definition removable_content :: "env \<Rightarrow> json \<Rightarrow> bool" where
  "removable_content e path =
     (case path of
        JInt _ \<Rightarrow> False
      | JStr p \<Rightarrow>
          (case strip_prefix ''app/uploads/'' p of
             None \<Rightarrow> False
           | Some stored \<Rightarrow>
               plain_name stored
               \<and> \<not> is_directory e (uploads_dir e @ [stored])
               \<and> \<not> protected e (uploads_dir e @ [stored])))"

text \<open>
  Nothing exists at the metadata path of an id, or a well-formed record with removable
  content is there in a file that is not protected.
\<close>

definition record_or_absent :: "env \<Rightarrow> files \<Rightarrow> string \<Rightarrow> bool" where
  "record_or_absent e fs document_id =
     (\<not> os_path_exists e fs (JStr (metadata_path_of document_id)) \<or>
      (case read_json e fs (metadata_path_of document_id) of
         Inl _ \<Rightarrow> False
       | Inr md \<Rightarrow>
           wf_metadata md
           \<and> (case map_of md ''path'' of Some v \<Rightarrow> removable_content e v | None \<Rightarrow> False)
           \<and> \<not> protected e (knowledge_dir e @ [document_id @ ''_metadata.json''])))"

text \<open>
  The listing as the specification words it: the metadata records whose referenced
  content file exists, each shown with its id and the six fields copied from the record.
\<close>

definition field :: "metadata \<Rightarrow> string \<Rightarrow> json" where
  "field md k = (case map_of md k of Some v \<Rightarrow> v | None \<Rightarrow> JStr [])"

definition record_of :: "env \<Rightarrow> files \<Rightarrow> string \<Rightarrow> metadata" where
  "record_of e fs name =
     (case read_json e fs (''app/knowledge/'' @ name) of Inr md \<Rightarrow> md | Inl _ \<Rightarrow> [])"

definition content_exists :: "env \<Rightarrow> files \<Rightarrow> string \<Rightarrow> bool" where
  "content_exists e fs name = os_path_exists e fs (field (record_of e fs name) ''path'')"

definition document_of :: "env \<Rightarrow> files \<Rightarrow> string \<Rightarrow> document" where
  "document_of e fs name =
     (let md = record_of e fs name
      in \<lparr> doc_id = split_first (stem name),
           doc_filename = field md ''filename'',
           doc_description = field md ''description'',
           doc_category = field md ''category'',
           doc_upload_time = field md ''upload_time'',
           doc_size = field md ''size'',
           doc_extension = field md ''extension'' \<rparr>)"

definition live_documents :: "env \<Rightarrow> files \<Rightarrow> document list" where
  "live_documents e fs =
     map (document_of e fs) (filter (content_exists e fs) (glob_metadata e fs))"

text \<open>
  The field names of the record in the file at a path (none when no record is there),
  and the value stored under one of its fields.
\<close>

definition stored_fields :: "env \<Rightarrow> files \<Rightarrow> string \<Rightarrow> string list" where
  "stored_fields e fs path = (case read_json e fs path of Inr md \<Rightarrow> map fst md | Inl _ \<Rightarrow> [])"

definition stored_value :: "env \<Rightarrow> files \<Rightarrow> string \<Rightarrow> string \<Rightarrow> json option" where
  "stored_value e fs path k = (case read_json e fs path of Inr md \<Rightarrow> map_of md k | Inl _ \<Rightarrow> None)"

subsection \<open>Names used in the statements\<close>

text \<open>
  The stored file name and the content path that \<open>upload_document\<close> computes for a
  file uploaded at a given time, and the responses.
\<close>

definition stored_filename_of :: "int \<Rightarrow> upload_file \<Rightarrow> string" where
  "stored_filename_of now file =
     str_int now @ ''_'' @ replace (CHR '' '') (CHR ''_'') (filename file)"

definition content_path_of :: "int \<Rightarrow> upload_file \<Rightarrow> string" where
  "content_path_of now file = os_path_join ''app/uploads'' (stored_filename_of now file)"

definition file_ext_of :: "upload_file \<Rightarrow> string" where
  "file_ext_of file = lower (snd (splitext (filename file)))"

definition unsupported_file_type :: error where
  "unsupported_file_type =
     HTTPException 400 ''Unsupported file type. Allowed types: .pdf, .docx, .xlsx, .xls, .csv, .txt''"

definition deleted :: delete_response where
  "deleted = \<lparr> del_status = ''success'', del_message = ''Document deleted successfully'' \<rparr>"

text \<open>
  Example inputs: an environment with working directory \<open>/srv/agent\<close>, no further
  directories and no protected files, in which every write succeeds; the same without
  the document processor; and an empty store.
\<close>

definition demo_env :: env where
  "demo_env = \<lparr> DOCUMENT_PROCESSOR_AVAILABLE = True, cwd = [''srv'', ''agent''],
                other_dirs = (\<lambda>_. False), protected = (\<lambda>_. False),
                write_permitted = (\<lambda>_. True), fd_open = (\<lambda>_. False) \<rparr>"

definition offline_env :: env where
  "offline_env = \<lparr> DOCUMENT_PROCESSOR_AVAILABLE = False, cwd = [''srv'', ''agent''],
                   other_dirs = (\<lambda>_. False), protected = (\<lambda>_. False),
                   write_permitted = (\<lambda>_. True), fd_open = (\<lambda>_. False) \<rparr>"

definition empty_state :: state where
  "empty_state = \<lparr> files = [], background_tasks = [] \<rparr>"

definition notes_txt :: upload_file where
  "notes_txt = \<lparr> filename = ''notes.txt'', file_bytes = ''hello'' \<rparr>"

definition report_pdf :: upload_file where
  "report_pdf = \<lparr> filename = ''Annual Report.PDF'', file_bytes = ''%PDF'' \<rparr>"

definition setup_exe :: upload_file where
  "setup_exe = \<lparr> filename = ''setup.exe'', file_bytes = ''MZ'' \<rparr>"

text \<open>
  An example store: two documents with their records, and a third record whose content
  file is gone.
\<close>

definition example_record :: "string \<Rightarrow> string \<Rightarrow> int \<Rightarrow> int \<Rightarrow> string \<Rightarrow> metadata" where
  "example_record name stored ts nbytes ext =
     [(''filename'', JStr name),
      (''stored_filename'', JStr stored),
      (''path'', JStr (''app/uploads/'' @ stored)),
      (''description'', JStr []),
      (''category'', JStr ''general''),
      (''upload_time'', JInt ts),
      (''size'', JInt nbytes),
      (''extension'', JStr ext)]"

definition example_state :: state where
  "example_state =
     \<lparr> files =
         [([''srv'', ''agent'', ''app'', ''uploads'', ''1700000000_notes.txt''], Bytes ''hello''),
          ([''srv'', ''agent'', ''app'', ''knowledge'', ''1700000000_metadata.json''],
             Json (example_record ''notes.txt'' ''1700000000_notes.txt'' 1700000000 5 ''.txt'')),
          ([''srv'', ''agent'', ''app'', ''knowledge'', ''1700000050_metadata.json''],
             Json (example_record ''prices.csv'' ''1700000050_prices.csv'' 1700000050 9 ''.csv'')),
          ([''srv'', ''agent'', ''app'', ''uploads'', ''1700000100_Annual_Report.PDF''], Bytes ''%PDF''),
          ([''srv'', ''agent'', ''app'', ''knowledge'', ''1700000100_metadata.json''],
             Json (example_record ''Annual Report.PDF'' ''1700000100_Annual_Report.PDF''
                     1700000100 4 ''.pdf''))],
       background_tasks = [] \<rparr>"

text \<open>
  A store whose records spell their content path in other ways: through \<open>.\<close>, as the
  upload directory itself, and through \<open>..\<close> back to the record's own file.
\<close>

definition spelled_record :: "string \<Rightarrow> int \<Rightarrow> metadata" where
  "spelled_record path ts =
     [(''filename'', JStr ''a.txt''),
      (''stored_filename'', JStr ''a.txt''),
      (''path'', JStr path),
      (''description'', JStr []),
      (''category'', JStr ''general''),
      (''upload_time'', JInt ts),
      (''size'', JInt 1),
      (''extension'', JStr ''.txt'')]"

definition spelled_state :: state where
  "spelled_state =
     \<lparr> files =
         [([''srv'', ''agent'', ''app'', ''uploads'', ''1700000200_a.txt''], Bytes ''a''),
          ([''srv'', ''agent'', ''app'', ''knowledge'', ''1700000200_metadata.json''],
             Json (spelled_record ''app/uploads/./1700000200_a.txt'' 1700000200)),
          ([''srv'', ''agent'', ''app'', ''knowledge'', ''1700000300_metadata.json''],
             Json (spelled_record ''app/uploads/'' 1700000300)),
          ([''srv'', ''agent'', ''app'', ''knowledge'', ''1700000400_metadata.json''],
             Json (spelled_record ''app/uploads/../knowledge/1700000400_metadata.json'' 1700000400))],
       background_tasks = [] \<rparr>"

definition spelled_document :: "string \<Rightarrow> int \<Rightarrow> document" where
  "spelled_document ident ts =
     \<lparr> doc_id = ident, doc_filename = JStr ''a.txt'', doc_description = JStr [],
       doc_category = JStr ''general'', doc_upload_time = JInt ts, doc_size = JInt 1,
       doc_extension = JStr ''.txt'' \<rparr>"

text \<open>The store after \<open>notes.txt\<close> and \<open>Annual Report.PDF\<close> were uploaded in second 1700000000.\<close>

definition same_second_files :: files where
  "same_second_files =
     [([''srv'', ''agent'', ''app'', ''uploads'', ''1700000000_notes.txt''], Bytes ''hello''),
      ([''srv'', ''agent'', ''app'', ''knowledge'', ''1700000000_metadata.json''],
         Json [(''filename'', JStr ''Annual Report.PDF''),
               (''stored_filename'', JStr ''1700000000_Annual_Report.PDF''),
               (''path'', JStr ''app/uploads/1700000000_Annual_Report.PDF''),
               (''description'', JStr []),
               (''category'', JStr ''general''),
               (''upload_time'', JInt 1700000000),
               (''size'', JInt 4),
               (''extension'', JStr ''.pdf'')]),
      ([''srv'', ''agent'', ''app'', ''uploads'', ''1700000000_Annual_Report.PDF''], Bytes ''%PDF'')]"

definition example_document :: "string \<Rightarrow> string \<Rightarrow> int \<Rightarrow> int \<Rightarrow> string \<Rightarrow> document" where
  "example_document ident name ts nbytes ext =
     \<lparr> doc_id = ident, doc_filename = JStr name, doc_description = JStr [],
       doc_category = JStr ''general'', doc_upload_time = JInt ts, doc_size = JInt nbytes,
       doc_extension = JStr ext \<rparr>"

text \<open>
  An example document processor: its state counts the processed documents, processing
  everything finds three, and every answer is the same two-field dictionary.
\<close>

definition demo_processor :: "(nat, int) document_processor" where
  "demo_processor =
     \<lparr> processed_knowledge = (\<lambda>p. 0 < p),
       process_all_documents = (\<lambda>p. 3),
       get_answer_from_knowledge_base =
         (\<lambda>p q. ([''answer'' \<mapsto> Str (if p = 0 then ''no information'' else ''we offer support''),
                    ''confidence'' \<mapsto> Other (int p)], p)) \<rparr>"

section \<open>Properties\<close>

subsection \<open>String helpers\<close>

lemma digit_char_avoids: "d < 10 \<Longrightarrow> c \<notin> set ''0123456789'' \<Longrightarrow> digit_char d \<noteq> c"
proof -
  assume "d < 10" and c: "c \<notin> set ''0123456789''"
  then have "digit_char d \<in> set ''0123456789''"
    unfolding digit_char_def by (intro nth_mem) simp
  with c show ?thesis by blast
qed

lemma str_nat_avoids: "c \<notin> set ''0123456789'' \<Longrightarrow> c \<notin> set (str_nat n)"
proof (induction n rule: str_nat.induct)
  case (1 n)
  show ?case
  proof (cases "n < 10")
    case True
    then show ?thesis
      using digit_char_avoids [OF True "1.prems"] by (subst str_nat.simps) simp
  next
    case False
    have "digit_char (n mod 10) \<noteq> c"
      by (rule digit_char_avoids [OF _ "1.prems"]) simp
    moreover have "c \<notin> set (str_nat (n div 10))"
      using False "1.prems" by (rule "1.IH")
    ultimately show ?thesis using False by (subst str_nat.simps) simp
  qed
qed

lemma str_nat_nonempty: "str_nat n \<noteq> []"
  by (subst str_nat.simps) simp

lemma str_int_avoids:
  assumes "c \<noteq> CHR ''-''" and "c \<notin> set ''0123456789''"
  shows "c \<notin> set (str_int i)"
  using assms(1) str_nat_avoids [OF assms(2)] by (simp add: str_int_def)

lemma str_int_nonempty: "str_int i \<noteq> []"
  by (simp add: str_int_def str_nat_nonempty)

lemma str_int_no_underscore: "CHR ''_'' \<notin> set (str_int i)"
  by (rule str_int_avoids) simp_all

lemma str_int_no_slash: "CHR ''/'' \<notin> set (str_int i)"
  by (rule str_int_avoids) simp_all

lemma not_startswith_slash: "s \<noteq> [] \<Longrightarrow> CHR ''/'' \<notin> set s \<Longrightarrow> \<not> startswith (s @ t) ''/''"
  by (cases s) (auto simp: startswith_def)

lemma upload_path: "os_path_join ''app/uploads'' (str_int n @ rest) = ''app/uploads/'' @ str_int n @ rest"
  using not_startswith_slash [OF str_int_nonempty str_int_no_slash, of n rest]
  by (simp add: os_path_join_def endswith_def)

lemma knowledge_path: "os_path_join ''app/knowledge'' (str_int n @ rest) = ''app/knowledge/'' @ str_int n @ rest"
  using not_startswith_slash [OF str_int_nonempty str_int_no_slash, of n rest]
  by (simp add: os_path_join_def endswith_def)

lemma metadata_path_of_str_int: "metadata_path_of (str_int n) = ''app/knowledge/'' @ str_int n @ ''_metadata.json''"
  by (simp add: metadata_path_of_def knowledge_path)

lemma rfind_from_absent: "c \<notin> set t \<Longrightarrow> rfind_from c t i l = l"
  by (induction t arbitrary: i l) auto

lemma rfind_from_last: "c \<notin> set t \<Longrightarrow> rfind_from c (s @ c # t) i l = int (i + length s)"
  by (induction s arbitrary: i l) (auto simp: rfind_from_absent)

lemma rfind_last: "c \<notin> set t \<Longrightarrow> rfind (s @ c # t) c = int (length s)"
  by (simp add: rfind_def rfind_from_last)

lemma stem_json: "s \<noteq> [] \<Longrightarrow> stem (s @ ''.json'') = s"
  using rfind_last [of "CHR ''.''" "''json''" s]
  by (simp add: stem_def)

lemma stem_metadata: "stem (s @ ''_metadata.json'') = s @ ''_metadata''"
  using stem_json [of "s @ ''_metadata''"] by simp

lemma split_first_prefix: "CHR ''_'' \<notin> set s \<Longrightarrow> split_first (s @ CHR ''_'' # t) = s"
  by (induction s) (auto simp: split_first_def)

lemma id_of_metadata_name: "CHR ''_'' \<notin> set s \<Longrightarrow> split_first (stem (s @ ''_metadata.json'')) = s"
  using split_first_prefix [of s "''metadata''"] by (simp add: stem_metadata)

subsection \<open>Path resolution\<close>

text \<open>
  The directories of the application are directories whatever the environment says, and
  a plain name below the knowledge or the upload directory resolves to the node of that
  name in it.
\<close>

lemma is_directory_cwd: "is_directory e (cwd e)"
  by (simp add: is_directory_def)

lemma is_directory_app: "is_directory e (cwd e @ [''app''])"
  by (simp add: is_directory_def app_dirs_def)

lemma is_directory_uploads: "is_directory e (cwd e @ [''app'', ''uploads''])"
  by (simp add: is_directory_def app_dirs_def)

lemma is_directory_knowledge: "is_directory e (cwd e @ [''app'', ''knowledge''])"
  by (simp add: is_directory_def app_dirs_def)

lemma split_path_plain: "CHR ''/'' \<notin> set s \<Longrightarrow> split_path s = [s]"
  by (induction s) auto

lemma split_path_append:
  "CHR ''/'' \<notin> set a \<Longrightarrow> split_path (a @ CHR ''/'' # rest) = a # split_path rest"
  by (induction a) auto

lemma split_path_nonempty: "split_path p \<noteq> []"
  by (induction p) (auto split: list.splits)

lemma split_path_last:
  "p \<noteq> [] \<Longrightarrow> last p \<noteq> CHR ''/'' \<Longrightarrow>
     last (split_path p) \<noteq> [] \<and> last (last (split_path p)) = last p"
proof (induction p)
  case Nil
  then show ?case by simp
next
  case (Cons c cs)
  show ?case
  proof (cases "cs = []")
    case True
    with Cons.prems show ?thesis by simp
  next
    case False
    with Cons.prems have l: "last cs \<noteq> CHR ''/''" by simp
    note ih = Cons.IH [OF False l]
    obtain x xs where sp: "split_path cs = x # xs"
      using split_path_nonempty [of cs] by (cases "split_path cs") auto
    show ?thesis
    proof (cases "c = CHR ''/''")
      case True
      with ih False sp show ?thesis by simp
    next
      case c: False
      show ?thesis
      proof (cases "xs = []")
        case True
        with ih sp c False show ?thesis by auto
      next
        case xs: False
        with ih sp c False show ?thesis by auto
      qed
    qed
  qed
qed

lemma walk_append:
  "walk e cur (cs @ ds) = (case walk e cur cs of None \<Rightarrow> None | Some d \<Rightarrow> walk e d ds)"
  by (induction cs arbitrary: cur) auto

lemma plain_nameD:
  assumes "plain_name s"
  shows "s \<noteq> []" "s \<noteq> ''.''" "s \<noteq> ''..''" "CHR ''/'' \<notin> set s" "CHR 0x00 \<notin> set s"
  using assms by (simp_all add: plain_name_def)

lemma resolve_knowledge:
  assumes "plain_name name"
  shows "resolve e (''app/knowledge/'' @ name) = Some (knowledge_dir e @ [name])"
proof -
  note n = plain_nameD [OF assms]
  have sp: "split_path (''app/knowledge/'' @ name) = [''app'', ''knowledge'', name]"
    using split_path_append [of "''app''" "''knowledge/'' @ name"]
      split_path_append [of "''knowledge''" name] split_path_plain [OF n(4)]
    by simp
  have w: "walk e (cwd e) [''app'', ''knowledge'', name] = Some (cwd e @ [''app'', ''knowledge'', name])"
    using n(1-3) is_directory_cwd [of e] is_directory_app [of e] is_directory_knowledge [of e]
    by simp
  show ?thesis
    unfolding resolve_def sp using n(5) w by (simp add: startswith_def knowledge_dir_def)
qed

lemma resolve_uploads:
  assumes "plain_name name"
  shows "resolve e (''app/uploads/'' @ name) = Some (uploads_dir e @ [name])"
proof -
  note n = plain_nameD [OF assms]
  have sp: "split_path (''app/uploads/'' @ name) = [''app'', ''uploads'', name]"
    using split_path_append [of "''app''" "''uploads/'' @ name"]
      split_path_append [of "''uploads''" name] split_path_plain [OF n(4)]
    by simp
  have w: "walk e (cwd e) [''app'', ''uploads'', name] = Some (cwd e @ [''app'', ''uploads'', name])"
    using n(1-3) is_directory_cwd [of e] is_directory_app [of e] is_directory_uploads [of e]
    by simp
  show ?thesis
    unfolding resolve_def sp using n(5) w by (simp add: startswith_def uploads_dir_def)
qed

lemma resolve_nul: "CHR 0x00 \<in> set p \<Longrightarrow> resolve e p = None"
  by (simp add: resolve_def)

lemma endswith_last:
  assumes "endswith s (t @ [c])"
  shows "s \<noteq> [] \<and> last s = c"
proof -
  from assms have "drop (length s - length (t @ [c])) s = t @ [c]"
    by (simp add: endswith_def)
  then have "s = take (length s - length (t @ [c])) s @ t @ [c]"
    by (metis append_take_drop_id)
  then obtain u where "s = u @ [c]" by (metis append.assoc)
  then show ?thesis by simp
qed

lemma metadata_suffix_last: "endswith s ''_metadata.json'' \<Longrightarrow> s \<noteq> [] \<and> last s = CHR ''n''"
  using endswith_last [of s "''_metadata.jso''" "CHR ''n''"] by simp

lemma metadata_file_name_plain:
  assumes "CHR ''/'' \<notin> set name" and "endswith name ''_metadata.json''" and "CHR 0x00 \<notin> set name"
  shows "plain_name name"
proof -
  from assms(2) have "name \<noteq> []" "last name = CHR ''n''"
    using metadata_suffix_last by auto
  then have "name \<noteq> ''.''" "name \<noteq> ''..''" by auto
  with assms \<open>name \<noteq> []\<close> show ?thesis by (simp add: plain_name_def)
qed

lemma resolve_last:
  assumes "resolve e p = Some k" and "p \<noteq> []" and "last p \<noteq> CHR ''/''" and "last p \<noteq> CHR ''.''"
  shows "k \<noteq> [] \<and> last k \<noteq> [] \<and> last (last k) = last p"
proof -
  let ?start = "if startswith p ''/'' then [] else cwd e"
  from assms(1) have w: "walk e ?start (split_path p) = Some k"
    by (simp add: resolve_def split: if_splits)
  from split_path_last [OF assms(2,3)]
  have l: "last (split_path p) \<noteq> []" "last (last (split_path p)) = last p" by auto
  define c where "c = last (split_path p)"
  define cs where "cs = butlast (split_path p)"
  have sp: "split_path p = cs @ [c]"
    using split_path_nonempty [of p] by (simp add: c_def cs_def)
  from l assms(4) have c: "c \<noteq> []" "last c = last p" "c \<noteq> ''.''" "c \<noteq> ''..''"
    by (auto simp: c_def)
  from w obtain d where d: "walk e ?start cs = Some d" and f: "walk e d [c] = Some k"
    unfolding sp walk_append by (auto split: option.splits)
  from f c have "k = d @ [c]"
    by (simp split: if_splits)
  with c show ?thesis by simp
qed

subsection \<open>The outcomes of an upload\<close>

lemma join_allowed: "''Unsupported file type. Allowed types: '' @ join '', '' allowed_extensions
   = ''Unsupported file type. Allowed types: .pdf, .docx, .xlsx, .xls, .csv, .txt''"
  by (simp add: allowed_extensions_def)

lemma writableD:
  assumes "writable e p"
  obtains c where "resolve e p = Some c" "\<not> is_directory e c" "\<not> protected e c"
  using assms by (auto simp: writable_def split: option.splits)

lemma open_write_writable:
  assumes "writable e p" and "resolve e p = Some c"
  shows "open_write e fs p d = Inr (AList.update c d fs)"
  using assms by (simp add: open_write_def)

lemma open_write_not_writable: "\<not> writable e p \<Longrightarrow> open_write e fs p d = Inl OSError"
  by (simp add: open_write_def split: option.splits)

lemma open_write_InrD: "open_write e fs p d = Inr fs' \<Longrightarrow> writable e p"
  by (simp add: open_write_def split: option.splits if_splits)

lemma content_path_of_eq: "content_path_of now file = ''app/uploads/'' @ stored_filename_of now file"
  using upload_path [of now "''_'' @ replace (CHR '' '') (CHR ''_'') (filename file)"]
  by (simp add: content_path_of_def stored_filename_of_def)

lemma metadata_name_plain: "plain_name (str_int n @ ''_metadata.json'')"
  using str_int_no_slash [of n] str_int_avoids [of "CHR 0x00" n] str_int_nonempty [of n]
  by (cases "str_int n") (auto simp: plain_name_def)

lemma resolve_metadata_path:
  "resolve e (metadata_path_of (str_int n)) = Some (knowledge_dir e @ [str_int n @ ''_metadata.json''])"
  unfolding metadata_path_of_str_int
  using resolve_knowledge [OF metadata_name_plain, of e n] by simp

lemma upload_document_rejected:
  assumes "file_ext_of file \<notin> set allowed_extensions"
  shows "upload_document e now file description category st = (Inl unsupported_file_type, st)"
  using assms unfolding upload_document_def unsupported_file_type_def file_ext_of_def join_allowed
  by (simp add: Let_def)

lemma upload_document_not_rejected:
  assumes "file_ext_of file \<in> set allowed_extensions"
  shows "fst (upload_document e now file description category st) \<noteq> Inl (HTTPException 400 detail)"
  using assms unfolding upload_document_def file_ext_of_def
  by (simp add: Let_def split: sum.splits)

lemma upload_document_unfold:
  assumes "file_ext_of file \<in> set allowed_extensions"
  shows "upload_document e now file description category st =
    (case open_write e (files st) (content_path_of now file) (Bytes (file_bytes file)) of
       Inl exc \<Rightarrow> (Inl (HTTPExceptionFrom 500 ''Failed to save file: '' exc), st)
     | Inr fs1 \<Rightarrow>
        (case open_write e fs1 (metadata_path_of (str_int now))
                (Json (upload_metadata file (stored_filename_of now file) (content_path_of now file)
                         description category now (file_ext_of file))) of
           Inl exc \<Rightarrow> (Inl (Unhandled exc), st\<lparr>files := fs1\<rparr>)
         | Inr fs2 \<Rightarrow>
            (Inr \<lparr> resp_status = ''success'',
                    resp_message = ''Document uploaded successfully'',
                    resp_document_id = str_int now,
                    resp_filename = filename file,
                    resp_category = category,
                    processing = DOCUMENT_PROCESSOR_AVAILABLE e \<rparr>,
             st\<lparr> files := fs2,
                 background_tasks := (if DOCUMENT_PROCESSOR_AVAILABLE e
                    then background_tasks st @ [content_path_of now file]
                    else background_tasks st) \<rparr>)))"
  using assms
  unfolding upload_document_def file_ext_of_def content_path_of_def stored_filename_of_def
    metadata_path_of_def
  by (simp add: Let_def cong: sum.case_cong)

lemma upload_document_success:
  assumes "file_ext_of file \<in> set allowed_extensions"
    and "writable e (content_path_of now file)"
    and "writable e (metadata_path_of (str_int now))"
    and "resolve e (content_path_of now file) = Some k"
  shows "upload_document e now file description category st =
    (Inr \<lparr> resp_status = ''success'',
            resp_message = ''Document uploaded successfully'',
            resp_document_id = str_int now,
            resp_filename = filename file,
            resp_category = category,
            processing = DOCUMENT_PROCESSOR_AVAILABLE e \<rparr>,
     st\<lparr> files := AList.update (knowledge_dir e @ [str_int now @ ''_metadata.json''])
               (Json (upload_metadata file (stored_filename_of now file) (content_path_of now file)
                  description category now (file_ext_of file)))
               (AList.update k (Bytes (file_bytes file)) (files st)),
         background_tasks := (if DOCUMENT_PROCESSOR_AVAILABLE e
            then background_tasks st @ [content_path_of now file] else background_tasks st) \<rparr>)"
  unfolding upload_document_unfold [OF assms(1)]
    open_write_writable [OF assms(2,4)]
    open_write_writable [OF assms(3) resolve_metadata_path]
  by simp

lemma upload_document_save_failed:
  assumes "file_ext_of file \<in> set allowed_extensions"
    and "\<not> writable e (content_path_of now file)"
  shows "upload_document e now file description category st =
           (Inl (HTTPExceptionFrom 500 ''Failed to save file: '' OSError), st)"
  unfolding upload_document_unfold [OF assms(1)] open_write_not_writable [OF assms(2)]
  by simp

lemma upload_document_metadata_failed:
  assumes "file_ext_of file \<in> set allowed_extensions"
    and "writable e (content_path_of now file)"
    and "\<not> writable e (metadata_path_of (str_int now))"
    and "resolve e (content_path_of now file) = Some k"
  shows "upload_document e now file description category st =
           (Inl (Unhandled OSError),
            st\<lparr>files := AList.update k (Bytes (file_bytes file)) (files st)\<rparr>)"
  unfolding upload_document_unfold [OF assms(1)] open_write_writable [OF assms(2,4)]
    open_write_not_writable [OF assms(3)]
  by simp

lemma upload_document_InrD:
  assumes "upload_document e now file description category st = (Inr resp, st')"
  shows "file_ext_of file \<in> set allowed_extensions \<and> writable e (content_path_of now file)
     \<and> writable e (metadata_path_of (str_int now))"
proof (cases "file_ext_of file \<in> set allowed_extensions")
  case False
  with assms show ?thesis by (simp add: upload_document_rejected)
next
  case True
  with assms show ?thesis
    unfolding upload_document_unfold [OF True]
    by (auto split: sum.splits dest: open_write_InrD)
qed

lemma map_fst_upload_metadata:
  "map fst (upload_metadata file sf fp description category ts ext) =
     [''filename'', ''stored_filename'', ''path'', ''description'', ''category'',
      ''upload_time'', ''size'', ''extension'']"
  by (simp add: upload_metadata_def)

lemma map_of_update_same: "map_of (AList.update k v al) k = Some v"
  by (simp add: update_conv')

text \<open>
  The content file of an accepted upload is never a metadata file of the knowledge
  directory: the last character of its node is the last letter of an allowed
  extension, in either case, and none of them is the \<open>n\<close> that ends \<open>_metadata.json\<close>.
\<close>

lemma allowed_extension_last:
  "s \<in> set allowed_extensions \<Longrightarrow> s \<noteq> [] \<and> last s \<in> set ''fxsvt''"
  by (auto simp: allowed_extensions_def)

lemma lower_char_fixed:
  "lower_char (CHR ''/'') = CHR ''/''" "lower_char (CHR '' '') = CHR '' ''"
  "lower_char (CHR ''.'') = CHR ''.''" "lower_char (CHR ''n'') = CHR ''n''"
  by (simp_all add: lower_char_def)

lemma lower_char_last_letter:
  assumes "lower_char c \<in> set ''fxsvt''"
  shows "c \<noteq> CHR ''/''" "c \<noteq> CHR '' ''" "c \<noteq> CHR ''.''" "c \<noteq> CHR ''n''"
  using assms lower_char_fixed by auto

lemma splitext_append: "fst (splitext p) @ snd (splitext p) = p"
  by (simp add: splitext_def Let_def)

lemma filename_last:
  assumes "file_ext_of file \<in> set allowed_extensions"
  shows "filename file \<noteq> [] \<and> lower_char (last (filename file)) \<in> set ''fxsvt''"
proof -
  let ?x = "snd (splitext (filename file))"
  from assms have l: "lower ?x \<noteq> []" "last (lower ?x) \<in> set ''fxsvt''"
    using allowed_extension_last [of "lower ?x"] by (auto simp: file_ext_of_def)
  then have x: "?x \<noteq> []" by (auto simp: lower_def)
  with l(2) have "lower_char (last ?x) \<in> set ''fxsvt''"
    by (simp add: lower_def last_map)
  moreover have "filename file = fst (splitext (filename file)) @ ?x"
    by (simp add: splitext_append)
  then have "filename file \<noteq> []" "last (filename file) = last ?x"
    using x by (metis append_is_Nil_conv, metis last_appendR)
  ultimately show ?thesis by simp
qed

lemma content_path_last:
  assumes "file_ext_of file \<in> set allowed_extensions"
  shows "content_path_of now file \<noteq> []
     \<and> lower_char (last (content_path_of now file)) \<in> set ''fxsvt''"
proof -
  from filename_last [OF assms] have ne: "filename file \<noteq> []"
    and l: "lower_char (last (filename file)) \<in> set ''fxsvt''" by auto
  from l have "last (filename file) \<noteq> CHR '' ''" by (rule lower_char_last_letter)
  with ne have "last (replace (CHR '' '') (CHR ''_'') (filename file)) = last (filename file)"
    by (simp add: replace_def last_map)
  moreover from ne have "replace (CHR '' '') (CHR ''_'') (filename file) \<noteq> []"
    by (simp add: replace_def)
  ultimately have "last (content_path_of now file) = last (filename file)"
    by (simp add: content_path_of_eq stored_filename_of_def)
  with l show ?thesis by (simp add: content_path_of_eq)
qed

lemma content_key_last:
  assumes "file_ext_of file \<in> set allowed_extensions"
    and "resolve e (content_path_of now file) = Some k"
  shows "k \<noteq> [] \<and> last k \<noteq> [] \<and> lower_char (last (last k)) \<in> set ''fxsvt''"
proof -
  from content_path_last [OF assms(1), of now]
  have ne: "content_path_of now file \<noteq> []"
    and l: "lower_char (last (content_path_of now file)) \<in> set ''fxsvt''" by auto
  from resolve_last [OF assms(2) ne lower_char_last_letter(1) [OF l] lower_char_last_letter(3) [OF l]] l
  show ?thesis by simp
qed

lemma content_key_not_metadata:
  assumes "file_ext_of file \<in> set allowed_extensions"
    and "resolve e (content_path_of now file) = Some k"
  shows "metadata_name e k = None" and "k \<noteq> d @ [s @ ''_metadata.json'']"
proof -
  from content_key_last [OF assms]
  have l: "lower_char (last (last k)) \<in> set ''fxsvt''" and ne: "k \<noteq> []" "last k \<noteq> []" by auto
  from l have n: "last (last k) \<noteq> CHR ''n''" by (rule lower_char_last_letter)
  show "metadata_name e k = None"
    using n metadata_suffix_last [of "last k"] by (auto simp: metadata_name_def)
  show "k \<noteq> d @ [s @ ''_metadata.json'']"
    using n by auto
qed

text \<open>
  What a successful upload leaves behind: the content file and, at the metadata path of
  the returned id, the record.
\<close>

lemma read_json_at:
  assumes "resolve e p = Some c" and "\<not> is_directory e c" and "map_of fs c = Some (Json md)"
  shows "read_json e fs p = Inr md"
  using assms by (simp add: read_json_def read_file_def bind_exc_def json_load_def)

lemma uploaded_files:
  assumes "upload_document e now file description category st = (Inr resp, st1)"
  obtains k where
    "resolve e (content_path_of now file) = Some k"
    "\<not> is_directory e k" "\<not> protected e k"
    "\<not> is_directory e (knowledge_dir e @ [str_int now @ ''_metadata.json''])"
    "\<not> protected e (knowledge_dir e @ [str_int now @ ''_metadata.json''])"
    "metadata_name e k = None"
    "k \<noteq> knowledge_dir e @ [str_int now @ ''_metadata.json'']"
    "resp_document_id resp = str_int now"
    "files st1 =
       AList.update (knowledge_dir e @ [str_int now @ ''_metadata.json''])
         (Json (upload_metadata file (stored_filename_of now file) (content_path_of now file)
                  description category now (file_ext_of file)))
         (AList.update k (Bytes (file_bytes file)) (files st))"
proof -
  note ok = upload_document_InrD [OF assms]
  from ok obtain k where k: "resolve e (content_path_of now file) = Some k"
    "\<not> is_directory e k" "\<not> protected e k"
    by (auto elim: writableD)
  from ok obtain km where "resolve e (metadata_path_of (str_int now)) = Some km"
    "\<not> is_directory e km" "\<not> protected e km"
    by (auto elim: writableD)
  then have km: "\<not> is_directory e (knowledge_dir e @ [str_int now @ ''_metadata.json''])"
    "\<not> protected e (knowledge_dir e @ [str_int now @ ''_metadata.json''])"
    by (simp_all add: resolve_metadata_path)
  from ok have ext: "file_ext_of file \<in> set allowed_extensions" by simp
  note nm = content_key_not_metadata [OF ext k(1)]
  from ok k(1) have s: "upload_document e now file description category st =
    (Inr \<lparr> resp_status = ''success'',
            resp_message = ''Document uploaded successfully'',
            resp_document_id = str_int now,
            resp_filename = filename file,
            resp_category = category,
            processing = DOCUMENT_PROCESSOR_AVAILABLE e \<rparr>,
     st\<lparr> files := AList.update (knowledge_dir e @ [str_int now @ ''_metadata.json''])
               (Json (upload_metadata file (stored_filename_of now file) (content_path_of now file)
                  description category now (file_ext_of file)))
               (AList.update k (Bytes (file_bytes file)) (files st)),
         background_tasks := (if DOCUMENT_PROCESSOR_AVAILABLE e
            then background_tasks st @ [content_path_of now file] else background_tasks st) \<rparr>)"
    by (simp add: upload_document_success)
  from s assms have "resp_document_id resp = str_int now" by auto
  moreover from s assms have "files st1 =
       AList.update (knowledge_dir e @ [str_int now @ ''_metadata.json''])
         (Json (upload_metadata file (stored_filename_of now file) (content_path_of now file)
                  description category now (file_ext_of file)))
         (AList.update k (Bytes (file_bytes file)) (files st))"
    by auto
  ultimately show thesis
    using that [OF k km nm(1) nm(2)] by blast
qed

lemma uploaded_record:
  assumes "upload_document e now file description category st = (Inr resp, st1)"
  shows "read_json e (files st1) (metadata_path_of (str_int now)) =
     Inr (upload_metadata file (stored_filename_of now file) (content_path_of now file)
            description category now (file_ext_of file))"
proof -
  from assms obtain k where
    d: "\<not> is_directory e (knowledge_dir e @ [str_int now @ ''_metadata.json''])"
    and f: "files st1 =
       AList.update (knowledge_dir e @ [str_int now @ ''_metadata.json''])
         (Json (upload_metadata file (stored_filename_of now file) (content_path_of now file)
                  description category now (file_ext_of file)))
         (AList.update k (Bytes (file_bytes file)) (files st))"
    by (rule uploaded_files)
  show ?thesis
    by (rule read_json_at [OF resolve_metadata_path d]) (simp add: f map_of_update_same)
qed

lemma stored_fields_uploaded:
  assumes "upload_document e now file description category st = (Inr resp, st1)"
  shows "stored_fields e (files st1) (metadata_path_of (str_int now)) =
     [''filename'', ''stored_filename'', ''path'', ''description'', ''category'',
      ''upload_time'', ''size'', ''extension'']"
  by (simp add: stored_fields_def uploaded_record [OF assms] map_fst_upload_metadata)

subsection \<open>Evaluation of the example inputs\<close>

lemma ext_setup_exe: "lower (snd (splitext ''setup.exe'')) = ''.exe''"
  by code_simp

lemma str_int_demo: "str_int 1700000000 = ''1700000000''"
  by (simp add: str_int_def str_nat.simps digit_char_def)

lemma ext_notes_txt: "lower (snd (splitext ''notes.txt'')) = ''.txt''"
  by code_simp

lemma ext_report_pdf: "lower (snd (splitext ''Annual Report.PDF'')) = ''.pdf''"
  by code_simp

lemma file_ext_of_notes_txt: "file_ext_of notes_txt = ''.txt''"
  by (simp add: file_ext_of_def notes_txt_def ext_notes_txt)

lemma file_ext_of_report_pdf: "file_ext_of report_pdf = ''.pdf''"
  by (simp add: file_ext_of_def report_pdf_def ext_report_pdf)

lemma stored_notes_txt: "stored_filename_of 1700000000 notes_txt = ''1700000000_notes.txt''"
  by (simp add: stored_filename_of_def str_int_demo notes_txt_def replace_def)

lemma stored_report_pdf: "stored_filename_of 1700000000 report_pdf = ''1700000000_Annual_Report.PDF''"
  by (simp add: stored_filename_of_def str_int_demo report_pdf_def replace_def)

lemma content_path_notes_txt: "content_path_of 1700000000 notes_txt = ''app/uploads/1700000000_notes.txt''"
  by (simp add: content_path_of_eq stored_notes_txt)

lemma content_path_report_pdf:
  "content_path_of 1700000000 report_pdf = ''app/uploads/1700000000_Annual_Report.PDF''"
  by (simp add: content_path_of_eq stored_report_pdf)

lemma metadata_path_demo: "metadata_path_of (str_int 1700000000) = ''app/knowledge/1700000000_metadata.json''"
  using metadata_path_of_str_int [of 1700000000] by (simp add: str_int_demo)

lemma resolve_notes_txt:
  "resolve demo_env ''app/uploads/1700000000_notes.txt'' =
     Some [''srv'', ''agent'', ''app'', ''uploads'', ''1700000000_notes.txt'']"
  by code_simp

lemma resolve_report_pdf:
  "resolve demo_env ''app/uploads/1700000000_Annual_Report.PDF'' =
     Some [''srv'', ''agent'', ''app'', ''uploads'', ''1700000000_Annual_Report.PDF'']"
  by code_simp

lemma writable_notes_txt: "writable demo_env (content_path_of 1700000000 notes_txt)"
  unfolding content_path_notes_txt by code_simp

lemma writable_report_pdf: "writable demo_env (content_path_of 1700000000 report_pdf)"
  unfolding content_path_report_pdf by code_simp

lemma writable_metadata_demo: "writable demo_env (metadata_path_of (str_int 1700000000))"
  unfolding metadata_path_demo by code_simp

lemma upload_notes_txt:
  "fst (upload_document demo_env 1700000000 notes_txt None ''general'' st) =
     Inr \<lparr> resp_status = ''success'', resp_message = ''Document uploaded successfully'',
            resp_document_id = ''1700000000'', resp_filename = ''notes.txt'',
            resp_category = ''general'', processing = True \<rparr>"
proof -
  have r: "resolve demo_env (content_path_of 1700000000 notes_txt) =
     Some [''srv'', ''agent'', ''app'', ''uploads'', ''1700000000_notes.txt'']"
    unfolding content_path_notes_txt by (rule resolve_notes_txt)
  have ok: "file_ext_of notes_txt \<in> set allowed_extensions"
    by (simp add: file_ext_of_notes_txt allowed_extensions_def)
  show ?thesis
    unfolding upload_document_success [OF ok writable_notes_txt writable_metadata_demo r]
    by (simp add: str_int_demo notes_txt_def demo_env_def)
qed

lemma upload_report_pdf:
  "fst (upload_document demo_env 1700000000 report_pdf description ''general'' st) =
     Inr \<lparr> resp_status = ''success'', resp_message = ''Document uploaded successfully'',
            resp_document_id = ''1700000000'', resp_filename = ''Annual Report.PDF'',
            resp_category = ''general'', processing = True \<rparr>"
proof -
  have r: "resolve demo_env (content_path_of 1700000000 report_pdf) =
     Some [''srv'', ''agent'', ''app'', ''uploads'', ''1700000000_Annual_Report.PDF'']"
    unfolding content_path_report_pdf by (rule resolve_report_pdf)
  have ok: "file_ext_of report_pdf \<in> set allowed_extensions"
    by (simp add: file_ext_of_report_pdf allowed_extensions_def)
  show ?thesis
    unfolding upload_document_success [OF ok writable_report_pdf writable_metadata_demo r]
    by (simp add: str_int_demo report_pdf_def demo_env_def)
qed

subsection \<open>Call simulation\<close>

text \<open>
  C5: a call-simulate request whose language is not one of en, hi, mr, te ends with
  the HTTP 400 validation error "Unsupported language", whatever the clock, the phone
  number and the engine are; no call result (the only call state the endpoint
  produces) is returned.
\<close>

theorem simulate_call_rejects_language:
  assumes "language \<notin> {''en'', ''hi'', ''mr'', ''te''}"
  shows "simulate_call now phone language engine = Inl (HTTPException 400 ''Unsupported language'')"
  using assms by (simp add: simulate_call_def)

text \<open>The request of the specification's scenario: language \<open>fr\<close>.\<close>

theorem simulate_call_rejects_language_witness:
  "''fr'' \<notin> {''en'', ''hi'', ''mr'', ''te''} \<and>
   simulate_call 1700000001 ''+15550100'' ''fr'' ''auto'' = Inl (HTTPException 400 ''Unsupported language'')"
  using simulate_call_rejects_language [of "''fr''" 1700000001 "''+15550100''" "''auto''"] by simp

text \<open>
  C8: the language is checked before the engine. For a language outside the supported
  set the error is the language error, never the engine error, and the outcome does
  not depend on the engine at all.
\<close>

theorem simulate_call_language_checked_first:
  assumes "language \<notin> {''en'', ''hi'', ''mr'', ''te''}"
  shows "simulate_call now phone language engine = Inl (HTTPException 400 ''Unsupported language'')
     \<and> simulate_call now phone language engine \<noteq> Inl (HTTPException 400 ''Unsupported TTS engine'')
     \<and> simulate_call now phone language engine = simulate_call now phone language engine'"
  using assms by (simp add: simulate_call_def)

text \<open>Language \<open>fr\<close> with the unsupported engine \<open>espeak\<close>: the language error is reported.\<close>

theorem simulate_call_language_checked_first_witness:
  "''fr'' \<notin> {''en'', ''hi'', ''mr'', ''te''} \<and> ''espeak'' \<notin> {''auto'', ''google'', ''indic''}
   \<and> simulate_call 1700000001 ''+15550100'' ''fr'' ''espeak'' = Inl (HTTPException 400 ''Unsupported language'')
   \<and> simulate_call 1700000001 ''+15550100'' ''fr'' ''espeak'' = simulate_call 1700000001 ''+15550100'' ''fr'' ''google''"
proof -
  have h: "''fr'' \<notin> {''en'', ''hi'', ''mr'', ''te''}" by simp
  note t = simulate_call_language_checked_first [OF h, of 1700000001 "''+15550100''" "''espeak''" "''google''"]
  have e: "''espeak'' \<notin> {''auto'', ''google'', ''indic''}" by simp
  from t have a: "simulate_call 1700000001 ''+15550100'' ''fr'' ''espeak'' = Inl (HTTPException 400 ''Unsupported language'')"
    by (rule conjunct1)
  from t have c: "simulate_call 1700000001 ''+15550100'' ''fr'' ''espeak'' = simulate_call 1700000001 ''+15550100'' ''fr'' ''google''"
    by (rule conjunct2 [THEN conjunct2])
  show ?thesis by (intro conjI h e a c)
qed

subsection \<open>Upload validation and the metadata record\<close>

text \<open>
  C2: an upload whose file extension (as the endpoint computes it: the lower-cased
  \<open>os.path.splitext\<close> extension of the file name) is not one of .pdf, .docx, .xlsx,
  .xls, .csv, .txt ends with the HTTP 400 validation error and leaves the state as it
  was: no content file, no metadata record, no background task.
\<close>

theorem upload_document_rejects_extension:
  assumes "lower (snd (splitext (filename file))) \<notin> {''.pdf'', ''.docx'', ''.xlsx'', ''.xls'', ''.csv'', ''.txt''}"
  shows "upload_document e now file description category st =
     (Inl (HTTPException 400 ''Unsupported file type. Allowed types: .pdf, .docx, .xlsx, .xls, .csv, .txt''), st)"
proof -
  from assms have "file_ext_of file \<notin> set allowed_extensions"
    by (simp add: file_ext_of_def allowed_extensions_def)
  then show ?thesis
    using upload_document_rejected by (simp add: unsupported_file_type_def)
qed

text \<open>An upload of \<open>setup.exe\<close> into the empty store.\<close>

theorem upload_document_rejects_extension_witness:
  "lower (snd (splitext (filename setup_exe))) \<notin> {''.pdf'', ''.docx'', ''.xlsx'', ''.xls'', ''.csv'', ''.txt''}
   \<and> upload_document demo_env 1700000000 setup_exe None ''general'' empty_state =
     (Inl (HTTPException 400 ''Unsupported file type. Allowed types: .pdf, .docx, .xlsx, .xls, .csv, .txt''), empty_state)"
proof -
  have h: "lower (snd (splitext (filename setup_exe))) \<notin> {''.pdf'', ''.docx'', ''.xlsx'', ''.xls'', ''.csv'', ''.txt''}"
    by (simp add: setup_exe_def ext_setup_exe)
  show ?thesis
    using h upload_document_rejects_extension [OF h] by simp
qed

text \<open>
  C6, as the code has it: a successful upload stores, under the metadata path of the
  returned document id, a record with exactly the eight fields filename,
  stored_filename, path, description, category, upload_time, size, extension. There
  is no status field.
\<close>

theorem upload_document_metadata_fields:
  assumes "upload_document e now file description category st = (Inr resp, st')"
  shows "stored_fields e (files st') (metadata_path_of (resp_document_id resp)) =
     [''filename'', ''stored_filename'', ''path'', ''description'', ''category'',
      ''upload_time'', ''size'', ''extension'']"
proof -
  from assms obtain k where "resp_document_id resp = str_int now"
    by (rule uploaded_files)
  with stored_fields_uploaded [OF assms] show ?thesis by simp
qed

text \<open>The upload of \<open>notes.txt\<close> at time 1700000000 into the empty store.\<close>

theorem upload_document_metadata_fields_witness:
  "fst (upload_document demo_env 1700000000 notes_txt None ''general'' empty_state) =
     Inr \<lparr> resp_status = ''success'', resp_message = ''Document uploaded successfully'',
            resp_document_id = ''1700000000'', resp_filename = ''notes.txt'',
            resp_category = ''general'', processing = True \<rparr>
   \<and> stored_fields demo_env (files (snd (upload_document demo_env 1700000000 notes_txt None ''general'' empty_state)))
        ''app/knowledge/1700000000_metadata.json'' =
     [''filename'', ''stored_filename'', ''path'', ''description'', ''category'',
      ''upload_time'', ''size'', ''extension'']"
proof -
  let ?u = "upload_document demo_env 1700000000 notes_txt None ''general'' empty_state"
  let ?r = "\<lparr> resp_status = ''success'', resp_message = ''Document uploaded successfully'',
            resp_document_id = ''1700000000'', resp_filename = ''notes.txt'',
            resp_category = ''general'', processing = True \<rparr>"
  have f: "fst ?u = Inr ?r" by (rule upload_notes_txt)
  then have eq: "?u = (Inr ?r, snd ?u)"
    by (simp add: prod_eq_iff)
  have "metadata_path_of (resp_document_id ?r) = ''app/knowledge/1700000000_metadata.json''"
    using metadata_path_demo by (simp add: str_int_demo)
  with upload_document_metadata_fields [OF eq] f show ?thesis
    by simp
qed

text \<open>
  The same upload refutes C6 as stated: it succeeds, and the field set of the record
  it stores is not the nine-element set that includes status.
\<close>

theorem upload_document_no_status_field:
  "fst (upload_document demo_env 1700000000 notes_txt None ''general'' empty_state) =
     Inr \<lparr> resp_status = ''success'', resp_message = ''Document uploaded successfully'',
            resp_document_id = ''1700000000'', resp_filename = ''notes.txt'',
            resp_category = ''general'', processing = True \<rparr>
   \<and> set (stored_fields demo_env (files (snd (upload_document demo_env 1700000000 notes_txt None ''general'' empty_state)))
        ''app/knowledge/1700000000_metadata.json'') \<noteq>
     {''filename'', ''stored_filename'', ''path'', ''description'', ''category'',
      ''upload_time'', ''size'', ''extension'', ''status''}"
proof -
  let ?u = "upload_document demo_env 1700000000 notes_txt None ''general'' empty_state"
  let ?r = "\<lparr> resp_status = ''success'', resp_message = ''Document uploaded successfully'',
            resp_document_id = ''1700000000'', resp_filename = ''notes.txt'',
            resp_category = ''general'', processing = True \<rparr>"
  have f: "fst ?u = Inr ?r" by (rule upload_notes_txt)
  then have eq: "?u = (Inr ?r, snd ?u)"
    by (simp add: prod_eq_iff)
  have fields: "stored_fields demo_env (files (snd ?u)) ''app/knowledge/1700000000_metadata.json'' =
     [''filename'', ''stored_filename'', ''path'', ''description'', ''category'',
      ''upload_time'', ''size'', ''extension'']"
    using stored_fields_uploaded [OF eq] by (simp only: metadata_path_demo)
  have "set (stored_fields demo_env (files (snd ?u)) ''app/knowledge/1700000000_metadata.json'') \<noteq>
     {''filename'', ''stored_filename'', ''path'', ''description'', ''category'',
      ''upload_time'', ''size'', ''extension'', ''status''}"
  proof
    assume "set (stored_fields demo_env (files (snd ?u)) ''app/knowledge/1700000000_metadata.json'') =
     {''filename'', ''stored_filename'', ''path'', ''description'', ''category'',
      ''upload_time'', ''size'', ''extension'', ''status''}"
    then have eq: "set [''filename'', ''stored_filename'', ''path'', ''description'', ''category'',
      ''upload_time'', ''size'', ''extension''] =
     {''filename'', ''stored_filename'', ''path'', ''description'', ''category'',
      ''upload_time'', ''size'', ''extension'', ''status''}"
      by (simp only: fields)
    have m: "''status'' \<in> {''filename'', ''stored_filename'', ''path'', ''description'', ''category'',
      ''upload_time'', ''size'', ''extension'', ''status''}" by simp
    have "''status'' \<in> set [''filename'', ''stored_filename'', ''path'', ''description'', ''category'',
      ''upload_time'', ''size'', ''extension'']"
      by (subst eq) (rule m)
    then show False by simp
  qed
  with f show ?thesis by (rule conjI)
qed

text \<open>
  C10: extension validation ignores letter case. When the lower-cased extension of the
  file name is an allowed one, the upload is never rejected with the HTTP 400
  validation error; and when the two files can be written it succeeds and the metadata
  record holds the lower-cased extension.
\<close>

theorem upload_document_extension_case_insensitive:
  assumes "lower (snd (splitext (filename file))) \<in> {''.pdf'', ''.docx'', ''.xlsx'', ''.xls'', ''.csv'', ''.txt''}"
  shows "(\<forall>detail. fst (upload_document e now file description category st) \<noteq> Inl (HTTPException 400 detail))
     \<and> (writable e (content_path_of now file) \<and> writable e (metadata_path_of (str_int now)) \<longrightarrow>
          (\<exists>resp. fst (upload_document e now file description category st) = Inr resp)
          \<and> stored_value e (files (snd (upload_document e now file description category st)))
               (metadata_path_of (str_int now)) ''extension''
             = Some (JStr (lower (snd (splitext (filename file))))))"
proof -
  let ?u = "upload_document e now file description category st"
  from assms have ok: "file_ext_of file \<in> set allowed_extensions"
    by (simp add: file_ext_of_def allowed_extensions_def)
  have "stored_value e (files (snd ?u)) (metadata_path_of (str_int now)) ''extension''
             = Some (JStr (lower (snd (splitext (filename file)))))"
    and "\<exists>resp. fst ?u = Inr resp"
    if w: "writable e (content_path_of now file)" "writable e (metadata_path_of (str_int now))"
  proof -
    from w(1) obtain k where k: "resolve e (content_path_of now file) = Some k"
      by (rule writableD)
    note s = upload_document_success [OF ok w k, of description category st]
    from s show "\<exists>resp. fst ?u = Inr resp" by simp
    from s have "?u = (Inr (projr (fst ?u)), snd ?u)" by simp
    then have "read_json e (files (snd ?u)) (metadata_path_of (str_int now)) =
       Inr (upload_metadata file (stored_filename_of now file) (content_path_of now file)
              description category now (file_ext_of file))"
      by (rule uploaded_record)
    then show "stored_value e (files (snd ?u)) (metadata_path_of (str_int now)) ''extension''
             = Some (JStr (lower (snd (splitext (filename file)))))"
      by (simp add: stored_value_def upload_metadata_def file_ext_of_def)
  qed
  with upload_document_not_rejected [OF ok] show ?thesis by blast
qed

text \<open>The upload of \<open>Annual Report.PDF\<close>: accepted, and recorded with extension \<open>.pdf\<close>.\<close>

theorem upload_document_extension_case_insensitive_witness:
  "lower (snd (splitext (filename report_pdf))) \<in> {''.pdf'', ''.docx'', ''.xlsx'', ''.xls'', ''.csv'', ''.txt''}
   \<and> snd (splitext (filename report_pdf)) = ''.PDF''
   \<and> writable demo_env (content_path_of 1700000000 report_pdf)
   \<and> writable demo_env (metadata_path_of (str_int 1700000000))
   \<and> fst (upload_document demo_env 1700000000 report_pdf (Some ''FY report'') ''finance'' empty_state)
        \<noteq> Inl (HTTPException 400 ''Unsupported file type. Allowed types: .pdf, .docx, .xlsx, .xls, .csv, .txt'')
   \<and> stored_value demo_env (files (snd (upload_document demo_env 1700000000 report_pdf (Some ''FY report'') ''finance'' empty_state)))
        ''app/knowledge/1700000000_metadata.json'' ''extension'' = Some (JStr ''.pdf'')"
proof -
  have raw: "snd (splitext (filename report_pdf)) = ''.PDF''"
    unfolding report_pdf_def by code_simp
  have low: "lower (snd (splitext (filename report_pdf))) = ''.pdf''"
    by (simp add: report_pdf_def ext_report_pdf)
  then have h: "lower (snd (splitext (filename report_pdf))) \<in> {''.pdf'', ''.docx'', ''.xlsx'', ''.xls'', ''.csv'', ''.txt''}"
    by simp
  note mp = metadata_path_demo
  note t = upload_document_extension_case_insensitive [OF h, of demo_env 1700000000 "Some ''FY report''" "''finance''" empty_state]
  from t have a: "fst (upload_document demo_env 1700000000 report_pdf (Some ''FY report'') ''finance'' empty_state)
        \<noteq> Inl (HTTPException 400 ''Unsupported file type. Allowed types: .pdf, .docx, .xlsx, .xls, .csv, .txt'')"
    by blast
  from t have b: "stored_value demo_env (files (snd (upload_document demo_env 1700000000 report_pdf (Some ''FY report'') ''finance'' empty_state)))
        ''app/knowledge/1700000000_metadata.json'' ''extension'' = Some (JStr ''.pdf'')"
    using writable_report_pdf writable_metadata_demo by (simp add: mp low)
  show ?thesis
    by (intro conjI h raw writable_report_pdf writable_metadata_demo a b)
qed

subsection \<open>Knowledge question\<close>

text \<open>
  C7, as the code has it: when the document processor is available, the answer is
  taken from the processor after a full reprocessing if its processed knowledge is
  empty (and from the processor as it is otherwise), and the response is that answer
  with the request's question and language stored under \<open>question\<close> and \<open>language\<close>;
  every other key is the answer's.
\<close>

theorem answer_question_available:
  assumes "DOCUMENT_PROCESSOR_AVAILABLE e"
  shows "let p1 = (if processed_knowledge dp p then p else process_all_documents dp p);
             answer = get_answer_from_knowledge_base dp p1 question
         in \<exists>result. answer_question e dp question language p = (Inr result, snd answer)
              \<and> result ''question'' = Some (Str question)
              \<and> result ''language'' = Some (Str language)
              \<and> (\<forall>k. k \<noteq> ''question'' \<and> k \<noteq> ''language'' \<longrightarrow> result k = fst answer k)"
  using assms
  by (simp add: answer_question_def Let_def split: prod.splits)

text \<open>
  A question to the example processor with nothing processed: everything is
  reprocessed (the state becomes 3) and an answer is returned.
\<close>

theorem answer_question_available_witness:
  "DOCUMENT_PROCESSOR_AVAILABLE demo_env
   \<and> \<not> processed_knowledge demo_processor 0
   \<and> process_all_documents demo_processor 0 = 3
   \<and> snd (answer_question demo_env demo_processor ''What services do you offer?'' ''en'' 0) = 3
   \<and> \<not> isl (fst (answer_question demo_env demo_processor ''What services do you offer?'' ''en'' 0))"
proof -
  have h: "DOCUMENT_PROCESSOR_AVAILABLE demo_env" by (simp add: demo_env_def)
  note t = answer_question_available [OF h, of demo_processor 0 "''What services do you offer?''" "''en''"]
  have np: "\<not> processed_knowledge demo_processor 0" by (simp add: demo_processor_def)
  have pa: "process_all_documents demo_processor 0 = 3" by (simp add: demo_processor_def)
  have ga: "snd (get_answer_from_knowledge_base demo_processor 3 ''What services do you offer?'') = 3"
    by (simp add: demo_processor_def)
  from t obtain result where
    r: "answer_question demo_env demo_processor ''What services do you offer?'' ''en'' 0 = (Inr result, 3)"
    unfolding Let_def using np pa ga by (auto simp only: if_False)
  show ?thesis
    using h np pa r by simp
qed

text \<open>
  C7 as stated fails when the processor is not available: with nothing processed, the
  request ends with HTTP 400, nothing is reprocessed and no answer is returned.
\<close>

theorem answer_question_unavailable:
  "\<not> processed_knowledge demo_processor 0 \<and>
   answer_question offline_env demo_processor ''What services do you offer?'' ''en'' 0 =
     (Inl (HTTPException 400 ''Document processor not available''), 0)"
  by (simp add: answer_question_def offline_env_def demo_processor_def)

subsection \<open>The listing on a well-formed store\<close>

lemma wf_metadataD:
  assumes "wf_metadata md"
  obtains v0 t v1 v2 v3 v4 v5 where
    "map_of md ''path'' = Some v0"
    "map_of md ''upload_time'' = Some (JInt t)"
    "map_of md ''filename'' = Some v1" "map_of md ''description'' = Some v2"
    "map_of md ''category'' = Some v3" "map_of md ''size'' = Some v4"
    "map_of md ''extension'' = Some v5"
proof -
  from assms obtain t where t: "map_of md ''upload_time'' = Some (JInt t)"
    unfolding wf_metadata_def by (auto split: option.splits json.splits)
  from assms have "map_of md ''path'' \<noteq> None"
    "map_of md ''filename'' \<noteq> None" "map_of md ''description'' \<noteq> None"
    "map_of md ''category'' \<noteq> None" "map_of md ''size'' \<noteq> None" "map_of md ''extension'' \<noteq> None"
    unfolding wf_metadata_def by simp_all
  then obtain v0 v1 v2 v3 v4 v5 where "map_of md ''path'' = Some v0"
    "map_of md ''filename'' = Some v1" "map_of md ''description'' = Some v2"
    "map_of md ''category'' = Some v3" "map_of md ''size'' = Some v4"
    "map_of md ''extension'' = Some v5" by blast
  with t that show thesis by blast
qed

lemma read_document_wf:
  assumes "read_json e fs (''app/knowledge/'' @ name) = Inr md" and "wf_metadata md"
  shows "read_document e fs name =
           Inr (if content_exists e fs name then Some (document_of e fs name) else None)"
proof -
  from assms(2) obtain v0 t v1 v2 v3 v4 v5 where f:
    "map_of md ''path'' = Some v0"
    "map_of md ''upload_time'' = Some (JInt t)"
    "map_of md ''filename'' = Some v1" "map_of md ''description'' = Some v2"
    "map_of md ''category'' = Some v3" "map_of md ''size'' = Some v4"
    "map_of md ''extension'' = Some v5"
    by (rule wf_metadataD)
  have rec: "record_of e fs name = md"
    using assms(1) by (simp add: record_of_def)
  show ?thesis
    unfolding read_document_def assms(1) content_exists_def document_of_def rec
    by (simp add: bind_exc_def getitem_def field_def f Let_def)
qed

lemma upload_time_document_of:
  assumes "read_json e fs (''app/knowledge/'' @ name) = Inr md" and "wf_metadata md"
  shows "is_JInt (doc_upload_time (document_of e fs name))"
proof -
  from assms(2) obtain t where "map_of md ''upload_time'' = Some (JInt t)"
    by (rule wf_metadataD)
  with assms(1) show ?thesis
    by (simp add: document_of_def record_of_def field_def is_JInt_def Let_def)
qed

lemma wf_nameD:
  assumes "wf_name e fs name"
  obtains md where "read_json e fs (''app/knowledge/'' @ name) = Inr md" "wf_metadata md"
  using assms unfolding wf_name_def by (auto split: sum.splits)

lemma wf_store_iff: "wf_store e fs \<longleftrightarrow> (\<forall>name\<in>set (glob_metadata e fs). wf_name e fs name)"
  by (simp add: wf_store_def list_all_iff)

lemma get_documents_loop_wf:
  assumes "\<forall>name\<in>set names. wf_name e fs name"
  shows "get_documents_loop e fs names acc =
           acc @ map (document_of e fs) (filter (content_exists e fs) names)"
  using assms
proof (induction names arbitrary: acc)
  case Nil
  then show ?case by simp
next
  case (Cons name names)
  from Cons.prems obtain md where md: "read_json e fs (''app/knowledge/'' @ name) = Inr md" "wf_metadata md"
    by (auto elim: wf_nameD)
  from Cons.prems have rest: "\<forall>n\<in>set names. wf_name e fs n" by simp
  show ?case
    by (simp add: read_document_wf [OF md] Cons.IH [OF rest])
qed

lemma live_documents_int:
  assumes "wf_store e fs"
  shows "list_all (\<lambda>d. is_JInt (doc_upload_time d)) (live_documents e fs)"
proof -
  have "is_JInt (doc_upload_time (document_of e fs name))" if "name \<in> set (glob_metadata e fs)" for name
  proof -
    from assms that have "wf_name e fs name" by (simp add: wf_store_iff)
    then obtain md where "read_json e fs (''app/knowledge/'' @ name) = Inr md" "wf_metadata md"
      by (rule wf_nameD)
    then show ?thesis by (rule upload_time_document_of)
  qed
  then show ?thesis
    by (simp add: live_documents_def list_all_iff)
qed

lemma get_documents_wf:
  assumes "wf_store e (files st)"
  shows "get_documents e st =
     Inr (rev (sort_key (\<lambda>d. int_of (doc_upload_time d)) (rev (live_documents e (files st)))))"
proof -
  from assms have "\<forall>name\<in>set (glob_metadata e (files st)). wf_name e (files st) name"
    by (simp add: wf_store_iff)
  then have loop: "get_documents_loop e (files st) (glob_metadata e (files st)) []
      = live_documents e (files st)"
    by (simp add: get_documents_loop_wf live_documents_def)
  show ?thesis
    unfolding get_documents_def loop sort_documents_def
    using live_documents_int [OF assms] by simp
qed

lemma sorted_descending:
  "sorted_wrt (\<lambda>a b. f b \<le> f a) (rev (sort_key f xs))"
proof -
  have "sorted (map f (sort_key f xs))" by (rule sorted_sort_key)
  then have "sorted_wrt (\<lambda>a b. f a \<le> f b) (sort_key f xs)"
    by (simp add: sorted_map)
  then show ?thesis by (simp add: sorted_wrt_rev)
qed

text \<open>
  The example store and the store with other spellings, evaluated. In the first the
  record of \<open>prices.csv\<close> has lost its content file. In the second every recorded
  path exists: one names a regular file through \<open>.\<close>, one the upload directory, one the
  record's own file.
\<close>

lemma wf_store_example_state: "wf_store demo_env (files example_state)"
  by code_simp

lemma live_documents_example_state:
  "live_documents demo_env (files example_state) =
     [example_document ''1700000000'' ''notes.txt'' 1700000000 5 ''.txt'',
      example_document ''1700000100'' ''Annual Report.PDF'' 1700000100 4 ''.pdf'']"
  by code_simp

lemma get_documents_example_state:
  "get_documents demo_env example_state =
     Inr [example_document ''1700000100'' ''Annual Report.PDF'' 1700000100 4 ''.pdf'',
          example_document ''1700000000'' ''notes.txt'' 1700000000 5 ''.txt'']"
  by code_simp

lemma wf_store_spelled_state: "wf_store demo_env (files spelled_state)"
  by code_simp

lemma get_documents_spelled_state:
  "get_documents demo_env spelled_state =
     Inr [spelled_document ''1700000400'' 1700000400,
          spelled_document ''1700000300'' 1700000300,
          spelled_document ''1700000200'' 1700000200]"
  by code_simp

text \<open>
  C4: on a store whose metadata files are well-formed records, the listing returns
  (it does not raise) the documents of exactly the records whose content path exists,
  each once; their upload times are integers, and the list is ordered by upload time
  with the newest first. A content path exists when \<open>os.path.exists\<close> says so: it
  resolves, under whatever spelling, to a regular file or to a directory.
\<close>

theorem get_documents_live_sorted:
  assumes "wf_store e (files st)"
  shows "\<exists>documents. get_documents e st = Inr documents
     \<and> mset documents = mset (live_documents e (files st))
     \<and> list_all (\<lambda>d. is_JInt (doc_upload_time d)) documents
     \<and> sorted_wrt (\<lambda>a b. int_of (doc_upload_time b) \<le> int_of (doc_upload_time a)) documents"
  unfolding get_documents_wf [OF assms]
  using live_documents_int [OF assms]
  by (simp add: sorted_descending list_all_iff)

text \<open>
  The example store: the record of \<open>prices.csv\<close>, whose content file is gone, is left
  out, and the report uploaded last comes first. The store with other spellings: all
  three records are listed, the newest first.
\<close>

theorem get_documents_live_sorted_witness:
  "wf_store demo_env (files example_state)
   \<and> get_documents demo_env example_state =
        Inr [example_document ''1700000100'' ''Annual Report.PDF'' 1700000100 4 ''.pdf'',
             example_document ''1700000000'' ''notes.txt'' 1700000000 5 ''.txt'']
   \<and> mset [example_document ''1700000100'' ''Annual Report.PDF'' 1700000100 4 ''.pdf'',
             example_document ''1700000000'' ''notes.txt'' 1700000000 5 ''.txt'']
       = mset (live_documents demo_env (files example_state))
   \<and> wf_store demo_env (files spelled_state)
   \<and> get_documents demo_env spelled_state =
        Inr [spelled_document ''1700000400'' 1700000400,
             spelled_document ''1700000300'' 1700000300,
             spelled_document ''1700000200'' 1700000200]
   \<and> mset [spelled_document ''1700000400'' 1700000400,
             spelled_document ''1700000300'' 1700000300,
             spelled_document ''1700000200'' 1700000200]
       = mset (live_documents demo_env (files spelled_state))"
proof -
  note t = get_documents_live_sorted [OF wf_store_example_state]
  from t have a: "mset [example_document ''1700000100'' ''Annual Report.PDF'' 1700000100 4 ''.pdf'',
             example_document ''1700000000'' ''notes.txt'' 1700000000 5 ''.txt'']
       = mset (live_documents demo_env (files example_state))"
    unfolding get_documents_example_state by blast
  note u = get_documents_live_sorted [OF wf_store_spelled_state]
  from u have b: "mset [spelled_document ''1700000400'' 1700000400,
             spelled_document ''1700000300'' 1700000300,
             spelled_document ''1700000200'' 1700000200]
       = mset (live_documents demo_env (files spelled_state))"
    unfolding get_documents_spelled_state by blast
  show ?thesis
    by (intro conjI wf_store_example_state get_documents_example_state a
        wf_store_spelled_state get_documents_spelled_state b)
qed

subsection \<open>Deletion\<close>

lemma delete_absent: "map_of al k = None \<Longrightarrow> AList.delete k al = al"
  by (simp add: map_of_eq_None_iff)

lemma read_json_InrD:
  assumes "read_json e fs p = Inr md"
  obtains c where "resolve e p = Some c" "\<not> is_directory e c" "map_of fs c = Some (Json md)"
  using assms
  by (auto simp: read_json_def read_file_def bind_exc_def json_load_def
      split: option.splits if_splits file_data.splits)

lemma os_path_exists_at:
  "resolve e p = Some c \<Longrightarrow> os_path_exists e fs (JStr p) = (is_directory e c \<or> map_of fs c \<noteq> None)"
  by (simp add: os_path_exists_def)

lemma os_remove_at:
  assumes "resolve e p = Some c" and "\<not> is_directory e c" and "map_of fs c \<noteq> None"
    and "\<not> protected e c"
  shows "os_remove e fs (JStr p) = Inr (AList.delete c fs)"
  using assms by (simp add: os_remove_def)

lemma delete_document_absent:
  assumes "\<not> os_path_exists e (files st) (JStr (metadata_path_of document_id))"
  shows "delete_document e document_id st = (Inl (HTTPException 404 ''Document not found''), st)"
  using assms by (simp add: delete_document_def Let_def)

lemma delete_document_record:
  assumes km: "resolve e (metadata_path_of document_id) = Some km" "\<not> is_directory e km"
      "\<not> protected e km"
    and md: "map_of (files st) km = Some (Json md)"
    and p: "map_of md ''path'' = Some (JStr p)"
    and k: "resolve e p = Some k" "\<not> is_directory e k" "\<not> protected e k"
    and ne: "k \<noteq> km"
  shows "delete_document e document_id st =
     (Inr deleted, st\<lparr>files := AList.delete km (AList.delete k (files st))\<rparr>)"
proof -
  have ex: "os_path_exists e (files st) (JStr (metadata_path_of document_id))"
    using km(1) md by (simp add: os_path_exists_at)
  have r: "bind_exc (read_json e (files st) (metadata_path_of document_id))
             (\<lambda>metadata. getitem metadata ''path'') = Inr (JStr p)"
    using read_json_at [OF km(1,2) md] p by (simp add: bind_exc_def getitem_def)
  have first: "(if os_path_exists e (files st) (JStr p) then os_remove e (files st) (JStr p)
                else Inr (files st)) = Inr (AList.delete k (files st))"
  proof (cases "map_of (files st) k = None")
    case True
    with k show ?thesis by (simp add: os_path_exists_at delete_absent)
  next
    case False
    with k show ?thesis by (simp add: os_path_exists_at os_remove_at)
  qed
  have still: "map_of (AList.delete k (files st)) km \<noteq> None"
    using md ne by (simp add: delete_conv')
  have second: "os_remove e (AList.delete k (files st)) (JStr (metadata_path_of document_id))
                 = Inr (AList.delete km (AList.delete k (files st)))"
    by (rule os_remove_at [OF km(1,2) still km(3)])
  show ?thesis
    unfolding delete_document_def Let_def
    using ex by (simp add: r first second deleted_def)
qed

lemma metadata_path_of_plain:
  assumes "CHR ''/'' \<notin> set document_id"
  shows "metadata_path_of document_id = ''app/knowledge/'' @ document_id @ ''_metadata.json''"
  using assms
  by (cases document_id) (auto simp: metadata_path_of_def os_path_join_def startswith_def endswith_def)

lemma resolve_metadata_path_plain:
  assumes "CHR ''/'' \<notin> set document_id"
  shows "resolve e (metadata_path_of document_id) =
     (if CHR 0x00 \<in> set document_id then None
      else Some (knowledge_dir e @ [document_id @ ''_metadata.json'']))"
proof (cases "CHR 0x00 \<in> set document_id")
  case True
  then show ?thesis
    by (simp add: metadata_path_of_plain [OF assms] resolve_nul)
next
  case False
  have "endswith (document_id @ ''_metadata.json'') ''_metadata.json''"
    by (simp add: endswith_def)
  with assms False have "plain_name (document_id @ ''_metadata.json'')"
    by (intro metadata_file_name_plain) auto
  from resolve_knowledge [OF this, of e] False show ?thesis
    by (simp add: metadata_path_of_plain [OF assms])
qed

lemma strip_prefix_iff: "strip_prefix pre s = Some name \<longleftrightarrow> s = pre @ name"
  by (induction pre s rule: strip_prefix.induct) auto

lemma removable_contentD:
  assumes "removable_content e v"
  obtains stored where "v = JStr (''app/uploads/'' @ stored)"
    "resolve e (''app/uploads/'' @ stored) = Some (uploads_dir e @ [stored])"
    "\<not> is_directory e (uploads_dir e @ [stored])" "\<not> protected e (uploads_dir e @ [stored])"
proof -
  from assms obtain p where v: "v = JStr p"
    by (cases v) (auto simp: removable_content_def)
  with assms obtain stored where s: "strip_prefix ''app/uploads/'' p = Some stored"
    "plain_name stored" "\<not> is_directory e (uploads_dir e @ [stored])"
    "\<not> protected e (uploads_dir e @ [stored])"
    by (auto simp: removable_content_def split: option.splits)
  from s(1) have "p = ''app/uploads/'' @ stored" by (simp only: strip_prefix_iff)
  with v s resolve_uploads [OF s(2), of e] that show thesis by blast
qed

lemma uploads_not_knowledge: "uploads_dir e @ [a] \<noteq> knowledge_dir e @ [b]"
  by (simp add: uploads_dir_def knowledge_dir_def)

lemma delete_document_outcomes:
  assumes slash: "CHR ''/'' \<notin> set document_id"
    and rec: "record_or_absent e (files st) document_id"
    and ex: "os_path_exists e (files st) (JStr (metadata_path_of document_id))"
  obtains md stored where
    "read_json e (files st) (metadata_path_of document_id) = Inr md"
    "map_of md ''path'' = Some (JStr (''app/uploads/'' @ stored))"
    "resolve e (metadata_path_of document_id) = Some (knowledge_dir e @ [document_id @ ''_metadata.json''])"
    "resolve e (''app/uploads/'' @ stored) = Some (uploads_dir e @ [stored])"
    "\<not> is_directory e (knowledge_dir e @ [document_id @ ''_metadata.json''])"
    "\<not> is_directory e (uploads_dir e @ [stored])"
    "delete_document e document_id st =
       (Inr deleted,
        st\<lparr>files := AList.delete (knowledge_dir e @ [document_id @ ''_metadata.json''])
                      (AList.delete (uploads_dir e @ [stored]) (files st))\<rparr>)"
proof -
  let ?mp = "metadata_path_of document_id"
  let ?km = "knowledge_dir e @ [document_id @ ''_metadata.json'']"
  from rec ex obtain md v where md: "read_json e (files st) ?mp = Inr md"
    and v: "map_of md ''path'' = Some v" "removable_content e v"
    and prot: "\<not> protected e ?km"
    unfolding record_or_absent_def by (auto split: sum.splits option.splits)
  from md obtain c where c: "resolve e ?mp = Some c" "\<not> is_directory e c"
    "map_of (files st) c = Some (Json md)"
    by (rule read_json_InrD)
  from c(1) have ckm: "c = ?km"
    by (simp add: resolve_metadata_path_plain [OF slash] split: if_splits)
  from v(2) obtain stored where s: "v = JStr (''app/uploads/'' @ stored)"
    "resolve e (''app/uploads/'' @ stored) = Some (uploads_dir e @ [stored])"
    "\<not> is_directory e (uploads_dir e @ [stored])" "\<not> protected e (uploads_dir e @ [stored])"
    by (rule removable_contentD)
  have d: "delete_document e document_id st =
       (Inr deleted, st\<lparr>files := AList.delete ?km (AList.delete (uploads_dir e @ [stored]) (files st))\<rparr>)"
    using c prot v(1) s uploads_not_knowledge [of e stored]
    unfolding ckm by (intro delete_document_record) auto
  show thesis
    using that [OF md _ _ s(2) _ s(3) d] v(1) s(1) c(1,2) ckm by simp
qed

text \<open>
  C3: the route delivers an id without a slash. When either nothing exists at the id's
  metadata path, or the file there is a well-formed record whose content path is
  \<open>app/uploads/\<close> followed by one file name and neither of the two files is protected
  (the records \<open>upload_document\<close> writes for plainly named files), deletion succeeds
  exactly when something exists at the metadata path. If nothing does, it fails with
  HTTP 404 and changes nothing, whatever else the store holds (a content file
  included). Otherwise it succeeds; afterwards neither the metadata path nor the
  recorded content path exists, every other file is as it was, and a second deletion of
  the same id fails with HTTP 404.
\<close>

theorem delete_document_removes_record_and_content:
  assumes "CHR ''/'' \<notin> set document_id"
    and "record_or_absent e (files st) document_id"
  shows "((fst (delete_document e document_id st) = Inr deleted)
            = os_path_exists e (files st) (JStr (metadata_path_of document_id)))
     \<and> (\<not> os_path_exists e (files st) (JStr (metadata_path_of document_id)) \<longrightarrow>
            delete_document e document_id st = (Inl (HTTPException 404 ''Document not found''), st))
     \<and> (os_path_exists e (files st) (JStr (metadata_path_of document_id)) \<longrightarrow>
          (\<exists>st'. delete_document e document_id st = (Inr deleted, st')
             \<and> \<not> os_path_exists e (files st') (JStr (metadata_path_of document_id))
             \<and> (\<forall>v. stored_value e (files st) (metadata_path_of document_id) ''path'' = Some v
                    \<longrightarrow> \<not> os_path_exists e (files st') v)
             \<and> (\<forall>c. resolve e (metadata_path_of document_id) \<noteq> Some c
                      \<and> (\<forall>p. stored_value e (files st) (metadata_path_of document_id) ''path''
                                 = Some (JStr p) \<longrightarrow> resolve e p \<noteq> Some c)
                    \<longrightarrow> map_of (files st') c = map_of (files st) c)
             \<and> delete_document e document_id st' = (Inl (HTTPException 404 ''Document not found''), st')))"
proof (cases "os_path_exists e (files st) (JStr (metadata_path_of document_id))")
  case False
  then have "delete_document e document_id st = (Inl (HTTPException 404 ''Document not found''), st)"
    by (rule delete_document_absent)
  with False show ?thesis by simp
next
  case True
  let ?mp = "metadata_path_of document_id"
  let ?km = "knowledge_dir e @ [document_id @ ''_metadata.json'']"
  from assms True obtain md stored where
    md: "read_json e (files st) ?mp = Inr md"
    and p: "map_of md ''path'' = Some (JStr (''app/uploads/'' @ stored))"
    and rm: "resolve e ?mp = Some ?km"
    and rk: "resolve e (''app/uploads/'' @ stored) = Some (uploads_dir e @ [stored])"
    and dm: "\<not> is_directory e ?km"
    and dk: "\<not> is_directory e (uploads_dir e @ [stored])"
    and d: "delete_document e document_id st =
       (Inr deleted, st\<lparr>files := AList.delete ?km (AList.delete (uploads_dir e @ [stored]) (files st))\<rparr>)"
    by (rule delete_document_outcomes)
  let ?st' = "st\<lparr>files := AList.delete ?km (AList.delete (uploads_dir e @ [stored]) (files st))\<rparr>"
  have sv: "stored_value e (files st) ?mp ''path'' = Some (JStr (''app/uploads/'' @ stored))"
    using md p by (simp add: stored_value_def)
  have gone: "\<not> os_path_exists e (files ?st') (JStr ?mp)"
    unfolding os_path_exists_at [OF rm] using dm by (simp add: delete_conv')
  have content: "\<not> os_path_exists e (files ?st') (JStr (''app/uploads/'' @ stored))"
    unfolding os_path_exists_at [OF rk] using dk by (simp add: delete_conv')
  have others: "map_of (files ?st') c = map_of (files st) c"
    if "c \<noteq> ?km" "c \<noteq> uploads_dir e @ [stored]" for c
    using that by (simp add: delete_conv')
  have again: "delete_document e document_id ?st' = (Inl (HTTPException 404 ''Document not found''), ?st')"
    using gone by (rule delete_document_absent)
  have "\<exists>st'. delete_document e document_id st = (Inr deleted, st')
             \<and> \<not> os_path_exists e (files st') (JStr ?mp)
             \<and> (\<forall>v. stored_value e (files st) ?mp ''path'' = Some v \<longrightarrow> \<not> os_path_exists e (files st') v)
             \<and> (\<forall>c. resolve e ?mp \<noteq> Some c
                      \<and> (\<forall>p. stored_value e (files st) ?mp ''path'' = Some (JStr p)
                             \<longrightarrow> resolve e p \<noteq> Some c)
                    \<longrightarrow> map_of (files st') c = map_of (files st) c)
             \<and> delete_document e document_id st' = (Inl (HTTPException 404 ''Document not found''), st')"
  proof (intro exI [of _ ?st'] conjI allI impI)
    show "delete_document e document_id st = (Inr deleted, ?st')" by (rule d)
    show "\<not> os_path_exists e (files ?st') (JStr ?mp)" by (rule gone)
    show "\<not> os_path_exists e (files ?st') v" if "stored_value e (files st) ?mp ''path'' = Some v" for v
      using that sv content by simp
    show "map_of (files ?st') c = map_of (files st) c"
      if "resolve e ?mp \<noteq> Some c
            \<and> (\<forall>p. stored_value e (files st) ?mp ''path'' = Some (JStr p) \<longrightarrow> resolve e p \<noteq> Some c)" for c
    proof (rule others)
      from that rm show "c \<noteq> ?km" by auto
      from that sv rk show "c \<noteq> uploads_dir e @ [stored]" by auto
    qed
    show "delete_document e document_id ?st' = (Inl (HTTPException 404 ''Document not found''), ?st')"
      by (rule again)
  qed
  moreover from d have "fst (delete_document e document_id st) = Inr deleted" by simp
  ultimately show ?thesis using True by simp
qed

text \<open>The example store holds such a record for 1700000000 and nothing for 42.\<close>

lemma record_example_state: "record_or_absent demo_env (files example_state) ''1700000000''"
  by code_simp

lemma present_example_state:
  "os_path_exists demo_env (files example_state) (JStr (metadata_path_of ''1700000000''))"
  by code_simp

lemma absent_example_state:
  "\<not> os_path_exists demo_env (files example_state) (JStr (metadata_path_of ''42''))"
  by code_simp

text \<open>
  The example store: deleting document 1700000000 succeeds once and then fails;
  deleting the unknown id 42 fails and changes nothing.
\<close>

theorem delete_document_removes_record_and_content_witness:
  "CHR ''/'' \<notin> set ''1700000000''
   \<and> record_or_absent demo_env (files example_state) ''1700000000''
   \<and> os_path_exists demo_env (files example_state) (JStr (metadata_path_of ''1700000000''))
   \<and> fst (delete_document demo_env ''1700000000'' example_state) = Inr deleted
   \<and> fst (delete_document demo_env ''1700000000''
             (snd (delete_document demo_env ''1700000000'' example_state)))
        = Inl (HTTPException 404 ''Document not found'')
   \<and> CHR ''/'' \<notin> set ''42''
   \<and> record_or_absent demo_env (files example_state) ''42''
   \<and> \<not> os_path_exists demo_env (files example_state) (JStr (metadata_path_of ''42''))
   \<and> delete_document demo_env ''42'' example_state
        = (Inl (HTTPException 404 ''Document not found''), example_state)"
proof -
  have s1: "CHR ''/'' \<notin> set ''1700000000''" by simp
  have s2: "CHR ''/'' \<notin> set ''42''" by simp
  note t = delete_document_removes_record_and_content [OF s1 record_example_state]
  from t present_example_state obtain st' where
    d: "delete_document demo_env ''1700000000'' example_state = (Inr deleted, st')"
    and again: "delete_document demo_env ''1700000000'' st' = (Inl (HTTPException 404 ''Document not found''), st')"
    by blast
  have a: "fst (delete_document demo_env ''1700000000'' example_state) = Inr deleted"
    by (simp add: d)
  have b: "fst (delete_document demo_env ''1700000000''
             (snd (delete_document demo_env ''1700000000'' example_state)))
        = Inl (HTTPException 404 ''Document not found'')"
    by (simp add: d again)
  have r42: "record_or_absent demo_env (files example_state) ''42''"
    using absent_example_state by (simp add: record_or_absent_def)
  note u = delete_document_removes_record_and_content [OF s2 r42]
  from u absent_example_state have c: "delete_document demo_env ''42'' example_state
        = (Inl (HTTPException 404 ''Document not found''), example_state)"
    by blast
  show ?thesis
    by (intro conjI s1 s2 record_example_state present_example_state a b r42 absent_example_state c)
qed

text \<open>
  Records of another shape are outside that statement, and the endpoint answers them
  differently. A record that names the upload directory: \<open>os.remove\<close> raises, the
  request ends with HTTP 500 and the store is as it was. A record that names its own
  file through \<open>..\<close>: the first \<open>os.remove\<close> removes the record, the second raises, and
  the request ends with HTTP 500 with the record gone. A record that spells its content
  path through \<open>.\<close>: the content file and the record are removed.
\<close>

lemma delete_directory_content:
  "delete_document demo_env ''1700000300'' spelled_state =
     (Inl (HTTPExceptionFrom 500 ''Failed to delete document: '' OSError), spelled_state)"
  by code_simp

lemma delete_aliased_record:
  "fst (delete_document demo_env ''1700000400'' spelled_state) =
     Inl (HTTPExceptionFrom 500 ''Failed to delete document: '' OSError)
   \<and> \<not> os_path_exists demo_env (files (snd (delete_document demo_env ''1700000400'' spelled_state)))
         (JStr (metadata_path_of ''1700000400''))"
  by code_simp

lemma delete_dot_spelled_content:
  "fst (delete_document demo_env ''1700000200'' spelled_state) = Inr deleted
   \<and> \<not> os_path_exists demo_env (files (snd (delete_document demo_env ''1700000200'' spelled_state)))
         (JStr ''app/uploads/1700000200_a.txt'')"
  by code_simp

subsection \<open>Well-formedness is kept by writes and removals\<close>

lemma metadata_name_iff:
  "metadata_name e c = Some name \<longleftrightarrow>
     c = knowledge_dir e @ [name] \<and> CHR ''/'' \<notin> set name \<and> endswith name ''_metadata.json''"
proof
  assume "metadata_name e c = Some name"
  then have "c \<noteq> []" "butlast c = knowledge_dir e" "last c = name"
    "CHR ''/'' \<notin> set (last c)" "endswith (last c) ''_metadata.json''"
    by (auto simp: metadata_name_def split: if_splits)
  moreover from \<open>c \<noteq> []\<close> have "c = butlast c @ [last c]" by simp
  ultimately show "c = knowledge_dir e @ [name] \<and> CHR ''/'' \<notin> set name
      \<and> endswith name ''_metadata.json''" by simp
next
  assume "c = knowledge_dir e @ [name] \<and> CHR ''/'' \<notin> set name \<and> endswith name ''_metadata.json''"
  then show "metadata_name e c = Some name" by (simp add: metadata_name_def)
qed

lemma glob_metadata_iff:
  "name \<in> set (glob_metadata e fs) \<longleftrightarrow>
     map_of fs (knowledge_dir e @ [name]) \<noteq> None \<and> CHR ''/'' \<notin> set name
       \<and> endswith name ''_metadata.json''"
proof -
  have "set (List.map_filter f xs) = {y. \<exists>x\<in>set xs. f x = Some y}"
    for f :: "node \<Rightarrow> string option" and xs
    by (induction xs) (auto split: option.splits)
  then show ?thesis
    unfolding glob_metadata_def
    by (auto simp: metadata_name_iff map_of_eq_None_iff)
qed

lemma read_knowledge_cong:
  assumes "CHR ''/'' \<notin> set name" and "endswith name ''_metadata.json''"
    and "map_of fs' (knowledge_dir e @ [name]) = map_of fs (knowledge_dir e @ [name])"
  shows "read_json e fs' (''app/knowledge/'' @ name) = read_json e fs (''app/knowledge/'' @ name)"
proof (cases "CHR 0x00 \<in> set name")
  case True
  then have "resolve e (''app/knowledge/'' @ name) = None" by (simp add: resolve_nul)
  then show ?thesis by (simp add: read_json_def read_file_def)
next
  case False
  with assms have "plain_name name" by (intro metadata_file_name_plain)
  then have "resolve e (''app/knowledge/'' @ name) = Some (knowledge_dir e @ [name])"
    by (rule resolve_knowledge)
  with assms(3) show ?thesis by (simp add: read_json_def read_file_def)
qed

lemma wf_name_cong:
  assumes "CHR ''/'' \<notin> set name" and "endswith name ''_metadata.json''"
    and "map_of fs' (knowledge_dir e @ [name]) = map_of fs (knowledge_dir e @ [name])"
  shows "wf_name e fs' name = wf_name e fs name"
  unfolding wf_name_def read_knowledge_cong [OF assms] by (rule refl)

lemma wf_store_iff2:
  "wf_store e fs \<longleftrightarrow> (\<forall>name. map_of fs (knowledge_dir e @ [name]) \<noteq> None
      \<and> CHR ''/'' \<notin> set name \<and> endswith name ''_metadata.json'' \<longrightarrow> wf_name e fs name)"
  by (auto simp: wf_store_iff glob_metadata_iff)

lemma wf_store_update_other:
  assumes "wf_store e fs" and "metadata_name e k = None"
  shows "wf_store e (AList.update k v fs)"
  unfolding wf_store_iff2
proof (intro allI impI)
  fix name
  assume a: "map_of (AList.update k v fs) (knowledge_dir e @ [name]) \<noteq> None
      \<and> CHR ''/'' \<notin> set name \<and> endswith name ''_metadata.json''"
  then have "metadata_name e (knowledge_dir e @ [name]) = Some name"
    by (simp add: metadata_name_iff)
  with assms(2) have ne: "knowledge_dir e @ [name] \<noteq> k" by auto
  then have same: "map_of (AList.update k v fs) (knowledge_dir e @ [name])
      = map_of fs (knowledge_dir e @ [name])"
    by (simp add: update_conv')
  with a assms(1) have "wf_name e fs name" by (simp add: wf_store_iff2)
  moreover from a same have "wf_name e (AList.update k v fs) name = wf_name e fs name"
    by (intro wf_name_cong) simp_all
  ultimately show "wf_name e (AList.update k v fs) name" by (simp only:)
qed

lemma wf_store_update_record:
  assumes "wf_store e fs" and "wf_metadata md"
    and "\<not> is_directory e (knowledge_dir e @ [str_int n @ ''_metadata.json''])"
  shows "wf_store e (AList.update (knowledge_dir e @ [str_int n @ ''_metadata.json'']) (Json md) fs)"
  unfolding wf_store_iff2
proof (intro allI impI)
  let ?k = "knowledge_dir e @ [str_int n @ ''_metadata.json'']"
  fix name
  assume a: "map_of (AList.update ?k (Json md) fs) (knowledge_dir e @ [name]) \<noteq> None
      \<and> CHR ''/'' \<notin> set name \<and> endswith name ''_metadata.json''"
  show "wf_name e (AList.update ?k (Json md) fs) name"
  proof (cases "name = str_int n @ ''_metadata.json''")
    case True
    have "read_json e (AList.update ?k (Json md) fs) (''app/knowledge/'' @ str_int n @ ''_metadata.json'')
            = Inr md"
      by (rule read_json_at [OF resolve_knowledge [OF metadata_name_plain] assms(3)])
        (simp add: map_of_update_same)
    with assms(2) True show ?thesis by (simp add: wf_name_def)
  next
    case False
    then have same: "map_of (AList.update ?k (Json md) fs) (knowledge_dir e @ [name])
        = map_of fs (knowledge_dir e @ [name])"
      by (simp add: update_conv')
    with a assms(1) have "wf_name e fs name" by (simp add: wf_store_iff2)
    moreover from a same have "wf_name e (AList.update ?k (Json md) fs) name = wf_name e fs name"
      by (intro wf_name_cong) simp_all
    ultimately show ?thesis by (simp only:)
  qed
qed

lemma wf_store_delete:
  assumes "wf_store e fs"
  shows "wf_store e (AList.delete k fs)"
  unfolding wf_store_iff2
proof (intro allI impI)
  fix name
  assume a: "map_of (AList.delete k fs) (knowledge_dir e @ [name]) \<noteq> None
      \<and> CHR ''/'' \<notin> set name \<and> endswith name ''_metadata.json''"
  then have ne: "knowledge_dir e @ [name] \<noteq> k"
    by (auto simp: delete_conv')
  then have same: "map_of (AList.delete k fs) (knowledge_dir e @ [name])
      = map_of fs (knowledge_dir e @ [name])"
    by (simp add: delete_conv')
  with a assms have "wf_name e fs name" by (simp add: wf_store_iff2)
  moreover from a same have "wf_name e (AList.delete k fs) name = wf_name e fs name"
    by (intro wf_name_cong) simp_all
  ultimately show "wf_name e (AList.delete k fs) name" by (simp only:)
qed

lemma canonical_names_iff:
  "canonical_names e fs \<longleftrightarrow> (\<forall>name\<in>set (glob_metadata e fs). canonical_name name)"
  by (simp add: canonical_names_def list_all_iff)

lemma canonical_names_update_other:
  assumes "canonical_names e fs" and "metadata_name e k = None"
  shows "canonical_names e (AList.update k v fs)"
  unfolding canonical_names_iff
proof
  fix name assume a: "name \<in> set (glob_metadata e (AList.update k v fs))"
  then have "metadata_name e (knowledge_dir e @ [name]) = Some name"
    by (simp add: metadata_name_iff glob_metadata_iff)
  with assms(2) have "knowledge_dir e @ [name] \<noteq> k" by auto
  with a have "name \<in> set (glob_metadata e fs)"
    by (simp add: glob_metadata_iff update_conv')
  with assms(1) show "canonical_name name" by (simp add: canonical_names_iff)
qed

lemma canonical_names_update_record:
  assumes "canonical_names e fs" and "canonical_name name0"
  shows "canonical_names e (AList.update (knowledge_dir e @ [name0]) v fs)"
  using assms unfolding canonical_names_iff
  by (auto simp: glob_metadata_iff update_conv' split: if_splits)

lemma canonical_names_delete:
  assumes "canonical_names e fs"
  shows "canonical_names e (AList.delete k fs)"
  using assms unfolding canonical_names_iff
  by (auto simp: glob_metadata_iff delete_conv' split: if_splits)

lemma canonical_name_str_int: "canonical_name (str_int n @ ''_metadata.json'')"
  using id_of_metadata_name [OF str_int_no_underscore, of n]
  by (simp add: canonical_name_def)

lemma canonical_name_unique:
  assumes "canonical_name name" and "split_first (stem name) = i"
  shows "name = i @ ''_metadata.json''"
  using assms by (simp add: canonical_name_def)

lemma wf_upload_metadata:
  "wf_metadata (upload_metadata file sf fp description category ts ext)"
  by (simp add: wf_metadata_def upload_metadata_def)

lemma valid_metadata_name:
  "CHR ''/'' \<notin> set (str_int n @ ''_metadata.json'') \<and> endswith (str_int n @ ''_metadata.json'') ''_metadata.json''"
  using str_int_no_slash [of n] by (simp add: endswith_def)

lemma get_documents_set:
  assumes "wf_store e (files st)"
  obtains documents where "get_documents e st = Inr documents"
    and "set documents = document_of e (files st) `
           {name \<in> set (glob_metadata e (files st)). content_exists e (files st) name}"
proof -
  have "set (rev (sort_key (\<lambda>d. int_of (doc_upload_time d)) (rev (live_documents e (files st)))))
          = document_of e (files st) `
             {name \<in> set (glob_metadata e (files st)). content_exists e (files st) name}"
    by (simp add: live_documents_def)
  with get_documents_wf [OF assms] that show thesis by blast
qed

lemma upload_keeps_wf_store:
  assumes "upload_document e now file description category st = (Inr resp, st1)"
    and "wf_store e (files st)"
  shows "wf_store e (files st1)"
proof -
  from assms(1) obtain k where
    "metadata_name e k = None"
    "\<not> is_directory e (knowledge_dir e @ [str_int now @ ''_metadata.json''])"
    "files st1 =
       AList.update (knowledge_dir e @ [str_int now @ ''_metadata.json''])
         (Json (upload_metadata file (stored_filename_of now file) (content_path_of now file)
                  description category now (file_ext_of file)))
         (AList.update k (Bytes (file_bytes file)) (files st))"
    by (rule uploaded_files)
  then show ?thesis
    using assms(2)
    by (simp add: wf_store_update_record wf_store_update_other wf_upload_metadata)
qed

lemma upload_keeps_canonical_names:
  assumes "upload_document e now file description category st = (Inr resp, st1)"
    and "canonical_names e (files st)"
  shows "canonical_names e (files st1)"
proof -
  from assms(1) obtain k where
    "metadata_name e k = None"
    "files st1 =
       AList.update (knowledge_dir e @ [str_int now @ ''_metadata.json''])
         (Json (upload_metadata file (stored_filename_of now file) (content_path_of now file)
                  description category now (file_ext_of file)))
         (AList.update k (Bytes (file_bytes file)) (files st))"
    by (rule uploaded_files)
  then show ?thesis
    using assms(2)
    by (simp add: canonical_names_update_record canonical_names_update_other canonical_name_str_int)
qed

lemma wf_store_empty: "wf_store e (files empty_state)"
  by (simp add: empty_state_def wf_store_def glob_metadata_def)

lemma canonical_names_empty: "canonical_names e (files empty_state)"
  by (simp add: empty_state_def canonical_names_def glob_metadata_def)

subsection \<open>Upload, listing and deletion together\<close>

text \<open>
  C9: on a well-formed store with canonical metadata file names, after a successful
  upload the listing shows a document whose id is the returned document id and whose
  file name is the uploaded one; deleting by the returned id then succeeds, and the
  listing afterwards shows no document with that id.
\<close>

theorem upload_list_delete_roundtrip:
  assumes up: "upload_document e now file description category st = (Inr resp, st1)"
    and wf: "wf_store e (files st)"
    and cn: "canonical_names e (files st)"
  shows "(\<exists>documents. get_documents e st1 = Inr documents
            \<and> (\<exists>d\<in>set documents. doc_id d = resp_document_id resp
                                   \<and> doc_filename d = JStr (filename file)))
     \<and> (\<exists>st2. delete_document e (resp_document_id resp) st1 = (Inr deleted, st2)
            \<and> (\<exists>documents. get_documents e st2 = Inr documents
                  \<and> (\<forall>d\<in>set documents. doc_id d \<noteq> resp_document_id resp)))"
proof -
  let ?name = "str_int now @ ''_metadata.json''"
  let ?km = "knowledge_dir e @ [?name]"
  let ?fp = "content_path_of now file"
  let ?md = "upload_metadata file (stored_filename_of now file) ?fp description category now
               (file_ext_of file)"
  from up obtain k where k: "resolve e ?fp = Some k" "\<not> is_directory e k" "\<not> protected e k"
    and km: "\<not> is_directory e ?km" "\<not> protected e ?km"
    and ne: "k \<noteq> ?km"
    and ident: "resp_document_id resp = str_int now"
    and fs1: "files st1 = AList.update ?km (Json ?md) (AList.update k (Bytes (file_bytes file)) (files st))"
    by (rule uploaded_files)
  note rm = resolve_metadata_path [of e now]
  have wf1: "wf_store e (files st1)" using up wf by (rule upload_keeps_wf_store)
  have cn1: "canonical_names e (files st1)" using up cn by (rule upload_keeps_canonical_names)
  have rec1: "map_of (files st1) ?km = Some (Json ?md)"
    unfolding fs1 by (rule map_of_update_same)
  have content1: "map_of (files st1) k \<noteq> None"
    unfolding fs1 using ne by (simp add: update_conv')
  have path: "map_of ?md ''path'' = Some (JStr ?fp)"
    by (simp add: upload_metadata_def)
  have pf: "field ?md ''path'' = JStr ?fp"
    by (simp add: field_def upload_metadata_def)
  have ff: "field ?md ''filename'' = JStr (filename file)"
    by (simp add: field_def upload_metadata_def)

  \<comment> \<open>the uploaded document is listed under the returned id\<close>
  have in_glob: "?name \<in> set (glob_metadata e (files st1))"
    using rec1 valid_metadata_name [of now] by (simp add: glob_metadata_iff)
  have rj: "read_json e (files st1) (''app/knowledge/'' @ ?name) = Inr ?md"
    using uploaded_record [OF up] by (simp only: metadata_path_of_str_int)
  have rof: "record_of e (files st1) ?name = ?md"
    unfolding record_of_def rj by simp
  have live: "content_exists e (files st1) ?name"
    unfolding content_exists_def rof pf os_path_exists_at [OF k(1)]
    using content1 by simp
  have doc: "doc_id (document_of e (files st1) ?name) = str_int now
      \<and> doc_filename (document_of e (files st1) ?name) = JStr (filename file)"
    unfolding document_of_def rof Let_def ff
    using id_of_metadata_name [OF str_int_no_underscore, of now] by simp
  obtain documents1 where g1: "get_documents e st1 = Inr documents1"
    and s1: "set documents1 = document_of e (files st1) `
           {name \<in> set (glob_metadata e (files st1)). content_exists e (files st1) name}"
    using wf1 by (rule get_documents_set)
  from in_glob live have "document_of e (files st1) ?name \<in> set documents1"
    unfolding s1 by blast
  with doc ident have listed: "\<exists>d\<in>set documents1. doc_id d = resp_document_id resp
                                   \<and> doc_filename d = JStr (filename file)"
    by auto

  \<comment> \<open>deleting it by that id succeeds\<close>
  let ?st2 = "st1\<lparr>files := AList.delete ?km (AList.delete k (files st1))\<rparr>"
  have del: "delete_document e (str_int now) st1 = (Inr deleted, ?st2)"
    by (rule delete_document_record [OF rm km rec1 path k ne])
  have wf2: "wf_store e (files ?st2)"
    using wf1 by (simp add: wf_store_delete)
  have cn2: "canonical_names e (files ?st2)"
    using cn1 by (simp add: canonical_names_delete)
  obtain documents2 where g2: "get_documents e ?st2 = Inr documents2"
    and s2: "set documents2 = document_of e (files ?st2) `
           {name \<in> set (glob_metadata e (files ?st2)). content_exists e (files ?st2) name}"
    using wf2 by (rule get_documents_set)
  have "doc_id d \<noteq> str_int now" if "d \<in> set documents2" for d
  proof
    assume eq: "doc_id d = str_int now"
    from that obtain name where n: "name \<in> set (glob_metadata e (files ?st2))"
      and d: "d = document_of e (files ?st2) name"
      unfolding s2 by blast
    from d eq have "split_first (stem name) = str_int now"
      by (simp add: document_of_def Let_def)
    moreover from cn2 n have "canonical_name name" by (simp add: canonical_names_iff)
    ultimately have "name = ?name" by (rule canonical_name_unique [rotated])
    with n have "map_of (files ?st2) ?km \<noteq> None" by (simp add: glob_metadata_iff)
    then show False by (simp add: delete_conv')
  qed
  with g2 del ident listed g1 show ?thesis by auto
qed

text \<open>The upload of \<open>notes.txt\<close> into the empty store, then its deletion by the returned id.\<close>

theorem upload_list_delete_roundtrip_witness:
  "wf_store demo_env (files empty_state) \<and> canonical_names demo_env (files empty_state)
   \<and> fst (upload_document demo_env 1700000000 notes_txt None ''general'' empty_state) =
       Inr \<lparr> resp_status = ''success'', resp_message = ''Document uploaded successfully'',
              resp_document_id = ''1700000000'', resp_filename = ''notes.txt'',
              resp_category = ''general'', processing = True \<rparr>
   \<and> \<not> isl (get_documents demo_env
          (snd (upload_document demo_env 1700000000 notes_txt None ''general'' empty_state)))
   \<and> fst (delete_document demo_env ''1700000000''
          (snd (upload_document demo_env 1700000000 notes_txt None ''general'' empty_state)))
       = Inr deleted"
proof -
  let ?u = "upload_document demo_env 1700000000 notes_txt None ''general'' empty_state"
  let ?r = "\<lparr> resp_status = ''success'', resp_message = ''Document uploaded successfully'',
              resp_document_id = ''1700000000'', resp_filename = ''notes.txt'',
              resp_category = ''general'', processing = True \<rparr>"
  have eq: "?u = (Inr ?r, snd ?u)"
    using upload_notes_txt [of empty_state] by (simp add: prod_eq_iff)
  note t = upload_list_delete_roundtrip [OF eq wf_store_empty canonical_names_empty]
  from t obtain documents where "get_documents demo_env (snd ?u) = Inr documents" by blast
  then have a: "\<not> isl (get_documents demo_env (snd ?u))" by simp
  from t obtain st2 where "delete_document demo_env (resp_document_id ?r) (snd ?u) = (Inr deleted, st2)"
    by blast
  then have b: "fst (delete_document demo_env ''1700000000'' (snd ?u)) = Inr deleted" by simp
  show ?thesis
    by (intro conjI wf_store_empty canonical_names_empty upload_notes_txt a b)
qed

subsection \<open>Two uploads in the same second\<close>

lemma get_documents_files: "files st = files st' \<Longrightarrow> get_documents e st = get_documents e st'"
  by (simp add: get_documents_def)

lemma knowledge_key_demo:
  "knowledge_dir demo_env @ [str_int 1700000000 @ ''_metadata.json''] =
     [''srv'', ''agent'', ''app'', ''knowledge'', ''1700000000_metadata.json'']"
  by (simp add: knowledge_dir_def demo_env_def str_int_demo)

lemma same_second_files_eq:
  "files (snd (upload_document demo_env 1700000000 report_pdf None ''general''
            (snd (upload_document demo_env 1700000000 notes_txt None ''general'' empty_state))))
   = same_second_files"
proof -
  let ?u1 = "upload_document demo_env 1700000000 notes_txt None ''general'' empty_state"
  let ?u2 = "upload_document demo_env 1700000000 report_pdf None ''general'' (snd ?u1)"
  have e1: "?u1 = (Inr (projr (fst ?u1)), snd ?u1)"
    using upload_notes_txt [of empty_state] by (simp add: prod_eq_iff)
  have e2: "?u2 = (Inr (projr (fst ?u2)), snd ?u2)"
    using upload_report_pdf [of None "snd ?u1"] by (simp add: prod_eq_iff)
  from e1 obtain k1 where k1: "resolve demo_env (content_path_of 1700000000 notes_txt) = Some k1"
    and f1: "files (snd ?u1) =
       AList.update (knowledge_dir demo_env @ [str_int 1700000000 @ ''_metadata.json''])
         (Json (upload_metadata notes_txt (stored_filename_of 1700000000 notes_txt)
                  (content_path_of 1700000000 notes_txt) None ''general'' 1700000000
                  (file_ext_of notes_txt)))
         (AList.update k1 (Bytes (file_bytes notes_txt)) (files empty_state))"
    by (rule uploaded_files)
  from k1 have k1v: "k1 = [''srv'', ''agent'', ''app'', ''uploads'', ''1700000000_notes.txt'']"
    by (simp add: content_path_notes_txt resolve_notes_txt)
  from e2 obtain k2 where k2: "resolve demo_env (content_path_of 1700000000 report_pdf) = Some k2"
    and f2: "files (snd ?u2) =
       AList.update (knowledge_dir demo_env @ [str_int 1700000000 @ ''_metadata.json''])
         (Json (upload_metadata report_pdf (stored_filename_of 1700000000 report_pdf)
                  (content_path_of 1700000000 report_pdf) None ''general'' 1700000000
                  (file_ext_of report_pdf)))
         (AList.update k2 (Bytes (file_bytes report_pdf)) (files (snd ?u1)))"
    by (rule uploaded_files)
  from k2 have k2v: "k2 = [''srv'', ''agent'', ''app'', ''uploads'', ''1700000000_Annual_Report.PDF'']"
    by (simp add: content_path_report_pdf resolve_report_pdf)
  have g1: "files (snd ?u1) =
      [([''srv'', ''agent'', ''app'', ''uploads'', ''1700000000_notes.txt''], Bytes ''hello''),
       ([''srv'', ''agent'', ''app'', ''knowledge'', ''1700000000_metadata.json''],
         Json (upload_metadata notes_txt ''1700000000_notes.txt'' ''app/uploads/1700000000_notes.txt''
                 None ''general'' 1700000000 ''.txt''))]"
    unfolding f1 k1v knowledge_key_demo stored_notes_txt content_path_notes_txt file_ext_of_notes_txt
    by (simp add: empty_state_def notes_txt_def)
  show ?thesis
    unfolding f2 k2v knowledge_key_demo stored_report_pdf content_path_report_pdf
      file_ext_of_report_pdf g1
    by (simp add: same_second_files_def report_pdf_def upload_metadata_def)
qed

lemma get_documents_same_second:
  "get_documents demo_env \<lparr>files = same_second_files, background_tasks = []\<rparr> =
     Inr [example_document ''1700000000'' ''Annual Report.PDF'' 1700000000 4 ''.pdf'']"
  by code_simp

text \<open>
  C1 fails on the code: \<open>notes.txt\<close> and \<open>Annual Report.PDF\<close> uploaded in the same
  second both succeed, both get the document id 1700000000, and the second metadata
  file replaces the first, so the listing shows one document only.
\<close>

theorem same_second_uploads_collide:
  "fst (upload_document demo_env 1700000000 notes_txt None ''general'' empty_state) =
     Inr \<lparr> resp_status = ''success'', resp_message = ''Document uploaded successfully'',
            resp_document_id = ''1700000000'', resp_filename = ''notes.txt'',
            resp_category = ''general'', processing = True \<rparr>
   \<and> fst (upload_document demo_env 1700000000 report_pdf None ''general''
            (snd (upload_document demo_env 1700000000 notes_txt None ''general'' empty_state))) =
     Inr \<lparr> resp_status = ''success'', resp_message = ''Document uploaded successfully'',
            resp_document_id = ''1700000000'', resp_filename = ''Annual Report.PDF'',
            resp_category = ''general'', processing = True \<rparr>
   \<and> get_documents demo_env
        (snd (upload_document demo_env 1700000000 report_pdf None ''general''
            (snd (upload_document demo_env 1700000000 notes_txt None ''general'' empty_state)))) =
     Inr [example_document ''1700000000'' ''Annual Report.PDF'' 1700000000 4 ''.pdf'']"
proof -
  let ?u1 = "upload_document demo_env 1700000000 notes_txt None ''general'' empty_state"
  let ?u2 = "upload_document demo_env 1700000000 report_pdf None ''general'' (snd ?u1)"
  have "get_documents demo_env (snd ?u2)
          = get_documents demo_env \<lparr>files = same_second_files, background_tasks = []\<rparr>"
    by (rule get_documents_files) (simp add: same_second_files_eq)
  then have "get_documents demo_env (snd ?u2)
          = Inr [example_document ''1700000000'' ''Annual Report.PDF'' 1700000000 4 ''.pdf'']"
    by (simp only: get_documents_same_second)
  with upload_notes_txt [of empty_state] upload_report_pdf [of None "snd ?u1"] show ?thesis
    by (intro conjI)
qed

subsection \<open>The endpoints keep the store well-formed\<close>

text \<open>
  The empty store is well-formed with canonical names, and every outcome of an upload
  or a deletion keeps both properties: they hold in every state the endpoints reach
  from the empty store.
\<close>

lemma upload_document_outcomes:
  obtains "snd (upload_document e now file description category st) = st"
  | k where "metadata_name e k = None"
      "snd (upload_document e now file description category st)
         = st\<lparr>files := AList.update k (Bytes (file_bytes file)) (files st)\<rparr>"
  | resp where "upload_document e now file description category st =
      (Inr resp, snd (upload_document e now file description category st))"
proof (cases "file_ext_of file \<in> set allowed_extensions")
  case False
  then show thesis using that(1) by (simp add: upload_document_rejected)
next
  case ext: True
  show thesis
  proof (cases "writable e (content_path_of now file)")
    case False
    with ext show thesis using that(1) by (simp add: upload_document_save_failed)
  next
    case w1: True
    then obtain k where k: "resolve e (content_path_of now file) = Some k"
      by (rule writableD)
    show thesis
    proof (cases "writable e (metadata_path_of (str_int now))")
      case False
      from upload_document_metadata_failed [OF ext w1 False k, of description category st]
        content_key_not_metadata(1) [OF ext k]
      show thesis using that(2) by simp
    next
      case True
      from upload_document_success [OF ext w1 True k, of description category st]
      show thesis using that(3) by simp
    qed
  qed
qed

lemma upload_document_keeps_wf_store:
  assumes "wf_store e (files st)"
  shows "wf_store e (files (snd (upload_document e now file description category st)))"
proof (cases rule: upload_document_outcomes [of e now "file" description category st])
  case 1
  with assms show ?thesis by simp
next
  case (2 k)
  with assms show ?thesis by (simp add: wf_store_update_other)
next
  case (3 resp)
  then show ?thesis using assms by (rule upload_keeps_wf_store)
qed

lemma upload_document_keeps_canonical_names:
  assumes "canonical_names e (files st)"
  shows "canonical_names e (files (snd (upload_document e now file description category st)))"
proof (cases rule: upload_document_outcomes [of e now "file" description category st])
  case 1
  with assms show ?thesis by simp
next
  case (2 k)
  with assms show ?thesis by (simp add: canonical_names_update_other)
next
  case (3 resp)
  then show ?thesis using assms by (rule upload_keeps_canonical_names)
qed

lemma os_remove_files: "os_remove e fs path = Inr fs' \<Longrightarrow> \<exists>k. fs' = AList.delete k fs"
  by (auto simp: os_remove_def split: json.splits option.splits if_splits)

lemma delete_document_files:
  "\<exists>ks. files (snd (delete_document e document_id st)) = foldr AList.delete ks (files st)"
proof -
  have none: "\<exists>ks. files st = foldr AList.delete ks (files st)"
    by (rule exI [of _ "[]"]) simp
  have one: "\<exists>ks. AList.delete k (files st) = foldr AList.delete ks (files st)" for k
    by (rule exI [of _ "[k]"]) simp
  have two: "\<exists>ks. AList.delete k2 (AList.delete k1 (files st)) = foldr AList.delete ks (files st)"
    for k1 k2
    by (rule exI [of _ "[k2, k1]"]) simp
  show ?thesis
    using none one two
    by (auto simp: delete_document_def Let_def split: sum.splits if_splits dest!: os_remove_files)
qed

lemma wf_store_deletes: "wf_store e fs \<Longrightarrow> wf_store e (foldr AList.delete ks fs)"
  by (induction ks) (simp_all add: wf_store_delete)

lemma canonical_names_deletes: "canonical_names e fs \<Longrightarrow> canonical_names e (foldr AList.delete ks fs)"
  by (induction ks) (simp_all add: canonical_names_delete)

lemma delete_document_keeps_wf_store:
  assumes "wf_store e (files st)"
  shows "wf_store e (files (snd (delete_document e document_id st)))"
  using delete_document_files [of e document_id st] assms
  by (auto simp: wf_store_deletes)

lemma delete_document_keeps_canonical_names:
  assumes "canonical_names e (files st)"
  shows "canonical_names e (files (snd (delete_document e document_id st)))"
  using delete_document_files [of e document_id st] assms
  by (auto simp: canonical_names_deletes)

text \<open>
  The record that a successful upload of a file named without a slash leaves behind is
  one that deletion removes together with its content: the returned id has no slash,
  and at its metadata path there is a well-formed record with removable content.
\<close>

lemma stored_filename_plain:
  assumes "CHR ''/'' \<notin> set (filename file)" and "CHR 0x00 \<notin> set (filename file)"
  shows "plain_name (stored_filename_of now file)"
proof -
  let ?s = "stored_filename_of now file"
  have u: "CHR ''_'' \<in> set ?s" by (simp add: stored_filename_of_def)
  have "?s \<noteq> []" by (simp add: stored_filename_of_def str_int_nonempty)
  moreover from u have "?s \<noteq> ''.''" by auto
  moreover from u have "?s \<noteq> ''..''" by auto
  moreover from assms(1) have "CHR ''/'' \<notin> set ?s"
    by (auto simp: stored_filename_of_def replace_def str_int_no_slash)
  moreover have "CHR 0x00 \<notin> set (str_int now)" by (rule str_int_avoids) simp_all
  with assms(2) have "CHR 0x00 \<notin> set ?s"
    by (auto simp: stored_filename_of_def replace_def)
  ultimately show ?thesis by (simp add: plain_name_def)
qed

lemma uploaded_record_or_absent:
  assumes up: "upload_document e now file description category st = (Inr resp, st1)"
    and plain: "CHR ''/'' \<notin> set (filename file)"
  shows "CHR ''/'' \<notin> set (resp_document_id resp)
     \<and> record_or_absent e (files st1) (resp_document_id resp)"
proof -
  let ?stored = "stored_filename_of now file"
  let ?md = "upload_metadata file ?stored (content_path_of now file) description category now
               (file_ext_of file)"
  from up obtain k where k: "resolve e (content_path_of now file) = Some k"
      "\<not> is_directory e k" "\<not> protected e k"
    and km: "\<not> protected e (knowledge_dir e @ [str_int now @ ''_metadata.json''])"
    and ident: "resp_document_id resp = str_int now"
    by (rule uploaded_files)
  have nul: "CHR 0x00 \<notin> set (filename file)"
  proof
    assume "CHR 0x00 \<in> set (filename file)"
    then have "CHR 0x00 \<in> set (content_path_of now file)"
      by (simp add: content_path_of_eq stored_filename_of_def replace_def)
    then have "resolve e (content_path_of now file) = None" by (rule resolve_nul)
    with k(1) show False by simp
  qed
  from plain nul have pn: "plain_name ?stored" by (rule stored_filename_plain)
  from resolve_uploads [OF pn, of e] k(1) have kv: "k = uploads_dir e @ [?stored]"
    by (simp only: content_path_of_eq option.inject)
  have sp: "strip_prefix ''app/uploads/'' (content_path_of now file) = Some ?stored"
    unfolding strip_prefix_iff by (rule content_path_of_eq)
  have rc: "removable_content e (JStr (content_path_of now file))"
    unfolding removable_content_def using sp pn k(2,3) kv by simp
  have rj: "read_json e (files st1) (metadata_path_of (str_int now)) = Inr ?md"
    using up by (rule uploaded_record)
  have path: "map_of ?md ''path'' = Some (JStr (content_path_of now file))"
    by (simp add: upload_metadata_def)
  have "record_or_absent e (files st1) (str_int now)"
    unfolding record_or_absent_def rj using wf_upload_metadata path rc km by simp
  with ident show ?thesis by (simp add: str_int_no_slash)
qed

end
